theory Spec2Isabelle
  imports Main
begin

section \<open>Shallow embedding of gcumos/pickler.py\<close>

text \<open>
  The module keeps process-wide mutable state: the registry of named contexts
  (\<^verbatim>\<open>_contexts\<close>), the class attributes \<^verbatim>\<open>dill.Pickler.dispatch\<close> and
  \<^verbatim>\<open>dill.Pickler.save\<close>, the file system and the interpreter's module tables.
  The embedding passes this state explicitly as a record \<open>world\<close>. Objects that are shared
  by reference (the context objects and the dispatch dictionaries) live in explicit stores
  indexed by a reference, so that aliasing is visible. Every \<^verbatim>\<open>raise\<close> of the source is a
  value of the type \<open>error\<close>. The two generator based context managers are split at their
  \<^verbatim>\<open>yield\<close> into an enter and an exit function; the local variables of the suspended
  generator are kept in a frame record.
\<close>

subsection \<open>Paths and the file system\<close>

text \<open>
  A path is a name supplied by the caller, a directory made by \<^verbatim>\<open>tempfile\<close>
  (numbered by the order of creation), or \<^verbatim>\<open>path_join\<close> of a path and a name.
\<close>

datatype path = Path string | TempDir nat | Join path string

text \<open>\<open>under t p\<close>: the path \<open>p\<close> is \<open>t\<close> itself or lies below it.\<close>

primrec under :: "path \<Rightarrow> path \<Rightarrow> bool" where
  "under t (Path s) = (Path s = t)"
| "under t (TempDir n) = (TempDir n = t)"
| "under t (Join q s) = (Join q s = t \<or> under t q)"

subsection \<open>Values\<close>

text \<open>
  An insertion-ordered dictionary: assigning to a key that is present keeps its place.
\<close>

fun odict_set :: "'k \<Rightarrow> 'v \<Rightarrow> ('k \<times> 'v) list \<Rightarrow> ('k \<times> 'v) list" where
  "odict_set k v [] = [(k, v)]"
| "odict_set k v ((k', v') # d) = (if k = k' then (k, v) # d else (k', v') # odict_set k v d)"

definition odict_of :: "('k \<times> 'v) list \<Rightarrow> ('k \<times> 'v) list" where
  "odict_of ps = foldl (\<lambda>d (k, v). odict_set k v d) [] ps"

definition items :: "('k \<times> 'v) list \<Rightarrow> ('k \<times> 'v) list" where
  "items d = d"

text \<open>
  The values a parameter store can hold: \<^verbatim>\<open>None\<close>, booleans, integers, floats (by the
  text \<^verbatim>\<open>json\<close> writes for them), strings, lists, tuples, dictionaries, and objects of
  any other class, by the name of the class.
\<close>

datatype pyval = PNone | PBool bool | PInt int | PFloat string | PStr string
  | PList "pyval list" | PTuple "pyval list" | PDict "(pyval \<times> pyval) list" | PObject string

text \<open>JSON documents. An object is the sequence of its members as written.\<close>

datatype json = JNull | JBool bool | JInt int | JFloat string | JStr string | JList "json list"
  | JDict "(string \<times> json) list"

text \<open>
  What a file holds: the text of a JSON document, or text that is no JSON document, such
  as the empty file or the beginning of a document.
\<close>

datatype file_content = Document json | Malformed

text \<open>The decimal text of an integer.\<close>

fun digits :: "nat \<Rightarrow> string" where
  "digits n =
     (if n < 10 then [''0123456789'' ! n]
      else digits (n div 10) @ [''0123456789'' ! (n mod 10)])"

declare digits.simps [simp del]

definition int_str :: "int \<Rightarrow> string" where
  "int_str i = (if i < 0 then CHR ''-'' # digits (nat (- i)) else digits (nat i))"

text \<open>
  \<^verbatim>\<open>json.dump\<close> with its default arguments. The key of a dictionary is written as a
  string: a string as it is, a float, a boolean, \<^verbatim>\<open>None\<close> and an integer by their text;
  any other key is a \<^verbatim>\<open>TypeError\<close>. Lists and tuples are both written as arrays. A
  value of any other class is a \<^verbatim>\<open>TypeError\<close>, which is the result \<open>None\<close> here.
\<close>

fun key_str :: "pyval \<Rightarrow> string option" where
  "key_str (PStr s) = Some s"
| "key_str (PFloat r) = Some r"
| "key_str (PBool b) = Some (if b then ''true'' else ''false'')"
| "key_str PNone = Some ''null''"
| "key_str (PInt i) = Some (int_str i)"
| "key_str k = None"

fun to_json :: "pyval \<Rightarrow> json option" where
  "to_json PNone = Some JNull"
| "to_json (PBool b) = Some (JBool b)"
| "to_json (PInt i) = Some (JInt i)"
| "to_json (PFloat r) = Some (JFloat r)"
| "to_json (PStr s) = Some (JStr s)"
| "to_json (PList xs) = map_option JList (those (map to_json xs))"
| "to_json (PTuple xs) = map_option JList (those (map to_json xs))"
| "to_json (PDict kvs) =
     map_option JDict
       (those (map (\<lambda>(k, v). case key_str k of
                                None \<Rightarrow> None
                              | Some s \<Rightarrow> map_option (Pair s) (to_json v)) kvs))"
| "to_json (PObject c) = None"

text \<open>
  \<^verbatim>\<open>json.dump\<close> writes the document piece by piece into the file that \<^verbatim>\<open>open\<close> has
  emptied: when it raises, the file holds the beginning of a document.
\<close>

definition written :: "pyval \<Rightarrow> file_content" where
  "written p = (case to_json p of Some j \<Rightarrow> Document j | None \<Rightarrow> Malformed)"

text \<open>
  \<^verbatim>\<open>json.load\<close>: an array becomes a list, an object a dictionary with string keys, in
  which a later member with the same name replaces the value of the earlier one.
\<close>

fun of_json :: "json \<Rightarrow> pyval" where
  "of_json JNull = PNone"
| "of_json (JBool b) = PBool b"
| "of_json (JInt i) = PInt i"
| "of_json (JFloat r) = PFloat r"
| "of_json (JStr s) = PStr s"
| "of_json (JList js) = PList (map of_json js)"
| "of_json (JDict ps) = PDict (odict_of (map (\<lambda>(s, j). (PStr s, of_json j)) ps))"

text \<open>
  The values that \<^verbatim>\<open>json\<close> gives back as they were: no tuple and no object of another
  class anywhere, and only strings as the keys of a dictionary, which are distinct as the
  keys of a dictionary are.
\<close>

fun is_str :: "pyval \<Rightarrow> bool" where
  "is_str (PStr s) = True"
| "is_str k = False"

fun json_native :: "pyval \<Rightarrow> bool" where
  "json_native (PList xs) = list_all json_native xs"
| "json_native (PDict kvs) =
     (distinct (map fst kvs) \<and> list_all (\<lambda>(k, v). is_str k \<and> json_native v) kvs)"
| "json_native (PTuple xs) = False"
| "json_native (PObject c) = False"
| "json_native v = True"

text \<open>A module object, with the two attributes the source reads:
  \<^verbatim>\<open>__name__\<close> and \<^verbatim>\<open>__package__\<close> (which may be \<^verbatim>\<open>None\<close>).\<close>

record module =
  mod_name :: string
  mod_package :: "string option"

text \<open>
  Identity of objects. Two type objects are named in the source: the metaclass
  \<^verbatim>\<open>GenericMeta\<close> of \<^verbatim>\<open>typing\<close> and the sentinel record type \<^verbatim>\<open>Empty\<close>.
\<close>

datatype ref = GenericMeta | Empty | Ref nat

subsection \<open>Errors\<close>

text \<open>The messages of the five \<^verbatim>\<open>raise Exception(...)\<close> statements.\<close>

datatype message =
    RootDirMissing path
  | ProvidedRootDirMissing path
  | ModuleNotImportable string
  | ModuleTypeMismatch
  | ContextAlreadyCreated string
  | ContextNotCreated string

datatype error =
    Exception message
  | KeyError string
  | KeyError_type ref
  | IndexError
  | AttributeError
  | TypeError
  | ValueError
  | JSONDecodeError
  | FileNotFoundError path
  | UserError string

text \<open>
  The source raises plain \<^verbatim>\<open>Exception\<close>; the specification groups these failures
  into a taxonomy. \<open>ConfigurationError\<close> is that grouping: a missing root directory, a
  module that cannot be imported, a session name that is in use, a session name that is
  not found.
\<close>

fun ConfigurationError :: "error \<Rightarrow> bool" where
  "ConfigurationError (Exception ModuleTypeMismatch) = False"
| "ConfigurationError (Exception m) = True"
| "ConfigurationError e = False"

subsection \<open>Module constants\<close>

definition DEFAULT_MODULES :: "string list" where
  "DEFAULT_MODULES = [''gcumos'', ''dill'']"

definition BLACKLIST :: "string set" where
  "BLACKLIST = {''builtins''}"

definition DEFAULT :: string where
  "DEFAULT = ''default''"

subsection \<open>The class AcumosContext\<close>

record AcumosContext =
  modules :: "module set"
  root_dir :: path
  params_path :: path
  parameters :: pyval

text \<open>Truth value of \<^verbatim>\<open>mod.__package__\<close>: \<^verbatim>\<open>None\<close> and the empty string are false.\<close>

definition truthy :: "string option \<Rightarrow> bool" where
  "truthy p = (case p of None \<Rightarrow> False | Some s \<Rightarrow> s \<noteq> [])"

definition packages :: "AcumosContext \<Rightarrow> module set" where
  "packages c = {m \<in> modules c. truthy (mod_package m)}"

definition package_names :: "AcumosContext \<Rightarrow> string set" where
  "package_names c = mod_name ` packages c"

definition scripts :: "AcumosContext \<Rightarrow> module set" where
  "scripts c = {s \<in> {m \<in> modules c. \<not> truthy (mod_package m)}. mod_name s \<noteq> ''__main__''}"

definition script_names :: "AcumosContext \<Rightarrow> string set" where
  "script_names c = mod_name ` scripts c"

text \<open>The argument of \<^verbatim>\<open>add_module\<close>: a string, a module, or anything else.\<close>

datatype module_arg = ModuleName string | ModuleObj module | OtherObj

text \<open>
  \<^verbatim>\<open>add_module\<close>. The first argument is what \<^verbatim>\<open>import_module\<close> finds for a name;
  a name it does not find is an \<^verbatim>\<open>ImportError\<close>, which the method turns into an
  \<^verbatim>\<open>Exception\<close>. For a name that starts with a dot \<^verbatim>\<open>import_module\<close> raises a
  \<^verbatim>\<open>TypeError\<close>, since no package is given, and for the empty name a
  \<^verbatim>\<open>ValueError\<close>; the method catches neither.
\<close>

definition add_module :: "(string \<rightharpoonup> module) \<Rightarrow> AcumosContext \<Rightarrow> module_arg \<Rightarrow> error + AcumosContext" where
  "add_module imp c arg =
     (case arg of
        ModuleName n \<Rightarrow>
          (if n \<noteq> [] \<and> hd n = CHR ''.'' then Inl TypeError
           else if n = [] then Inl ValueError
           else
             (case imp n of
                None \<Rightarrow> Inl (Exception (ModuleNotImportable n))
              | Some m \<Rightarrow> Inr (c\<lparr>modules := insert m (modules c)\<rparr>)))
      | ModuleObj m \<Rightarrow> Inr (c\<lparr>modules := insert m (modules c)\<rparr>)
      | OtherObj \<Rightarrow> Inl (Exception ModuleTypeMismatch))"

text \<open>The loop \<^verbatim>\<open>for mod in _DEFAULT_MODULES: self.add_module(mod)\<close>.\<close>

fun add_modules :: "(string \<rightharpoonup> module) \<Rightarrow> AcumosContext \<Rightarrow> string list \<Rightarrow> error + AcumosContext" where
  "add_modules imp c [] = Inr c"
| "add_modules imp c (n # ns) =
     (case add_module imp c (ModuleName n) of
        Inl e \<Rightarrow> Inl e
      | Inr c' \<Rightarrow> add_modules imp c' ns)"

subsection \<open>Type objects\<close>

text \<open>
  A type object as the annotation codec sees it: the bare generics \<^verbatim>\<open>typing.Dict\<close> and
  \<^verbatim>\<open>typing.List\<close>, any other class by its name, and a subscription \<open>t[args]\<close>, whose
  \<^verbatim>\<open>__origin__\<close> is \<open>t\<close> and whose \<^verbatim>\<open>__args__\<close> are \<open>args\<close>. Both attributes are
  \<^verbatim>\<open>None\<close> on a type that is not a subscription.
\<close>

datatype pytype = Dict | List | Class string | Subscript pytype "pytype list"

fun origin :: "pytype \<Rightarrow> pytype option" where
  "origin (Subscript t as) = Some t"
| "origin t = None"

fun args :: "pytype \<Rightarrow> pytype list option" where
  "args (Subscript t as) = Some as"
| "args t = None"

text \<open>A named tuple type: its \<^verbatim>\<open>__name__\<close> and its fields with their types, in order.\<close>

record ntype =
  nt_name :: string
  nt_fields :: "(string \<times> pytype) list"

subsection \<open>The process state\<close>

text \<open>
  \<^verbatim>\<open>dill.Pickler.save\<close> is either the serializer's own function or a closure
  \<^verbatim>\<open>wrapped_save\<close>, which holds the primitive it replaced.
\<close>

datatype save_prim = StockSave | WrappedSave save_prim

text \<open>The functions stored in a dispatch table.\<close>

datatype handler = SaveAnnotation | StockHandler string | CustomHandler string

type_synonym dispatch_table = "ref \<rightharpoonup> handler"

record world =
  contexts :: "string \<rightharpoonup> nat"
  ctx_heap :: "nat \<Rightarrow> AcumosContext"
  next_ctx :: nat
  dicts :: "nat \<Rightarrow> dispatch_table"
  next_dict :: nat
  Pickler_dispatch :: nat
  Pickler_save :: save_prim
  CUSTOM_DISPATCH :: "string \<rightharpoonup> handler"
  dirs :: "path set"
  files :: "path \<rightharpoonup> file_content"
  next_tmp :: nat
  sys_modules :: "string \<rightharpoonup> module"
  importable :: "string \<rightharpoonup> module"
  types :: "ref \<rightharpoonup> ntype"
  next_obj :: nat

text \<open>
  \<open>contexts\<close> is \<^verbatim>\<open>_contexts\<close>; it maps a name to a reference into \<open>ctx_heap\<close>.
  \<open>Pickler_dispatch\<close> refers to a dictionary in \<open>dicts\<close>. \<open>files\<close> holds the content
  of the files that exist, \<open>dirs\<close> the directories that exist.
  \<open>importable\<close> is what \<^verbatim>\<open>import_module\<close> returns, \<open>sys_modules\<close> is \<^verbatim>\<open>sys.modules\<close>.
  \<open>types\<close> holds the named tuple types that exist, by their identity; a new object
  takes the identity \<open>Ref (next_obj w)\<close>.
\<close>

subsection \<open>Parameters\<close>

text \<open>
  \<^verbatim>\<open>_load_params\<close>: the empty dictionary when there is no file, what \<^verbatim>\<open>json.load\<close>
  returns when the file holds a document, and its decoding error otherwise.
\<close>

definition load_params :: "world \<Rightarrow> path \<Rightarrow> error + pyval" where
  "load_params w pp =
     (case files w pp of
        Some (Document j) \<Rightarrow> Inr (of_json j)
      | Some Malformed \<Rightarrow> Inl JSONDecodeError
      | None \<Rightarrow> Inr (PDict []))"

text \<open>
  \<^verbatim>\<open>save_params\<close> opens \<^verbatim>\<open>_params_path\<close> for writing, which fails when the
  directory that holds it, the root directory, is gone. Otherwise the file holds what
  \<^verbatim>\<open>json.dump\<close> has written, also when \<^verbatim>\<open>json.dump\<close> raises its \<^verbatim>\<open>TypeError\<close>.
\<close>

definition save_params :: "world \<Rightarrow> AcumosContext \<Rightarrow> error option \<times> world" where
  "save_params w c =
     (if root_dir c \<notin> dirs w then (Some (FileNotFoundError (params_path c)), w)
      else
        (case to_json (parameters c) of None \<Rightarrow> Some TypeError | Some j \<Rightarrow> None,
         w\<lparr>files := (files w)(params_path c \<mapsto> written (parameters c))\<rparr>))"

definition AcumosContext_init :: "world \<Rightarrow> path \<Rightarrow> error + AcumosContext" where
  "AcumosContext_init w root =
     (if root \<notin> dirs w then Inl (Exception (RootDirMissing root))
      else
        let pp = Join root ''context.json'' in
        (case load_params w pp of
           Inl e \<Rightarrow> Inl e
         | Inr p \<Rightarrow>
             add_modules (importable w)
               \<lparr>modules = {}, root_dir = root, params_path = pp, parameters = p\<rparr>
               DEFAULT_MODULES))"

subsection \<open>The context manager \_patch\_dill\<close>

record patch_frame =
  saved_dispatch :: nat
  saved_save :: save_prim

text \<open>
  Up to the \<^verbatim>\<open>yield\<close>: the local \<^verbatim>\<open>dispatch\<close> keeps the reference to the current
  table, \<^verbatim>\<open>deepcopy\<close> makes a new dictionary with the same entries, and the save
  primitive is replaced by a closure over the old one.
\<close>

definition patch_dill_enter :: "world \<Rightarrow> patch_frame \<times> world" where
  "patch_dill_enter w =
     (\<lparr>saved_dispatch = Pickler_dispatch w, saved_save = Pickler_save w\<rparr>,
      w\<lparr>dicts := (dicts w)(next_dict w := dicts w (Pickler_dispatch w)),
        next_dict := Suc (next_dict w),
        Pickler_dispatch := next_dict w,
        Pickler_save := WrappedSave (Pickler_save w)\<rparr>)"

text \<open>The \<^verbatim>\<open>finally\<close> clause.\<close>

definition patch_dill_exit :: "patch_frame \<Rightarrow> world \<Rightarrow> world" where
  "patch_dill_exit f w = w\<lparr>Pickler_dispatch := saved_dispatch f, Pickler_save := saved_save f\<rparr>"

subsection \<open>The context manager \_DirManager\<close>

text \<open>
  The result of entering is the directory that is yielded and, when the manager made a
  temporary directory, that directory, which the exit removes with everything below it.
  \<^verbatim>\<open>tempfile\<close> makes a directory that did not exist: nothing is below it.
\<close>

definition rmtree :: "path \<Rightarrow> world \<Rightarrow> world" where
  "rmtree t w = w\<lparr>dirs := {p \<in> dirs w. \<not> under t p}, files := files w |` {p. \<not> under t p}\<rparr>"

definition DirManager_enter :: "world \<Rightarrow> path option \<Rightarrow> error + (path \<times> path option \<times> world)" where
  "DirManager_enter w dir =
     (case dir of
        Some d \<Rightarrow>
          (if d \<notin> dirs w then Inl (Exception (ProvidedRootDirMissing d))
           else Inr (d, None, w))
      | None \<Rightarrow>
          let t = TempDir (next_tmp w) in
          Inr (t, Some t,
               w\<lparr>dirs := insert t {p \<in> dirs w. \<not> under t p},
                 files := files w |` {p. \<not> under t p},
                 next_tmp := Suc (next_tmp w)\<rparr>))"

definition DirManager_exit :: "path option \<Rightarrow> world \<Rightarrow> world" where
  "DirManager_exit owned w = (case owned of None \<Rightarrow> w | Some t \<Rightarrow> rmtree t w)"

subsection \<open>The context manager AcumosContextManager\<close>

record session_frame =
  patch :: patch_frame
  sname :: string
  owned_tmp :: "path option"
  context_ref :: nat

text \<open>
  \<^verbatim>\<open>del _contexts[name]\<close>: a \<^verbatim>\<open>KeyError\<close> when the name is not registered.
\<close>

definition del_context :: "string \<Rightarrow> world \<Rightarrow> error option \<times> world" where
  "del_context name w =
     (if contexts w name = None then (Some (KeyError name), w)
      else (None, w\<lparr>contexts := (contexts w)(name := None)\<rparr>))"

text \<open>
  Leaving the generator from inside \<^verbatim>\<open>with _DirManager\<close>, with the exception \<open>exc\<close> in
  flight (or none): the directory manager exits, the \<^verbatim>\<open>finally\<close> clause deletes the
  registry entry, and \<^verbatim>\<open>_patch_dill\<close> exits. An exception raised by the
  \<^verbatim>\<open>finally\<close> clause replaces the one in flight.
\<close>

definition unwind :: "patch_frame \<Rightarrow> string \<Rightarrow> path option \<Rightarrow> error option \<Rightarrow> world \<Rightarrow> error option \<times> world" where
  "unwind pf name owned exc w =
     (let w1 = DirManager_exit owned w;
          (d, w2) = del_context name w1
      in (case d of Some k \<Rightarrow> Some k | None \<Rightarrow> exc, patch_dill_exit pf w2))"

text \<open>
  Running the generator up to its \<^verbatim>\<open>yield\<close>. The check of the name is inside
  \<^verbatim>\<open>with _patch_dill()\<close> and before the \<^verbatim>\<open>try\<close>; everything after it is inside the
  \<^verbatim>\<open>try\<close>, whose \<^verbatim>\<open>finally\<close> clause deletes the registry entry.
\<close>

definition AcumosContextManager_enter :: "world \<Rightarrow> path option \<Rightarrow> string \<Rightarrow> (error + session_frame) \<times> world" where
  "AcumosContextManager_enter w rootdir name =
     (let (pf, w1) = patch_dill_enter w in
      if contexts w1 name \<noteq> None
      then (Inl (Exception (ContextAlreadyCreated name)), patch_dill_exit pf w1)
      else
        (case DirManager_enter w1 rootdir of
           Inl e \<Rightarrow>
             (let (d, w2) = del_context name w1
              in (Inl (case d of Some k \<Rightarrow> k | None \<Rightarrow> e), patch_dill_exit pf w2))
         | Inr (root, owned, w2) \<Rightarrow>
             (case AcumosContext_init w2 root of
                Inl e \<Rightarrow>
                  (let (x, w3) = unwind pf name owned (Some e) w2
                   in (Inl (case x of Some k \<Rightarrow> k | None \<Rightarrow> e), w3))
              | Inr c \<Rightarrow>
                  (Inr \<lparr>patch = pf, sname = name, owned_tmp = owned, context_ref = next_ctx w2\<rparr>,
                   w2\<lparr>ctx_heap := (ctx_heap w2)(next_ctx w2 := c),
                      next_ctx := Suc (next_ctx w2),
                      contexts := (contexts w2)(name \<mapsto> next_ctx w2)\<rparr>))))"

text \<open>
  Resuming the generator when the body of the \<^verbatim>\<open>with\<close> statement has finished:
  \<open>outcome = None\<close> when the body completed, \<open>Some e\<close> when it raised \<open>e\<close>. Only in the
  first case is \<^verbatim>\<open>context.save_params()\<close> reached. The result is the exception that
  leaves the \<^verbatim>\<open>with\<close> statement, if any.
\<close>

definition AcumosContextManager_exit :: "session_frame \<Rightarrow> error option \<Rightarrow> world \<Rightarrow> error option \<times> world" where
  "AcumosContextManager_exit f outcome w =
     (case outcome of
        None \<Rightarrow>
          (let (x, w1) = save_params w (ctx_heap w (context_ref f))
           in unwind (patch f) (sname f) (owned_tmp f) x w1)
      | Some e \<Rightarrow> unwind (patch f) (sname f) (owned_tmp f) (Some e) w)"

definition get_context :: "world \<Rightarrow> string \<Rightarrow> error + nat" where
  "get_context w name =
     (case contexts w name of
        Some a \<Rightarrow> Inr a
      | None \<Rightarrow> Inl (Exception (ContextNotCreated name)))"

text \<open>
  The \<^verbatim>\<open>with\<close> statement over either manager, for a body given as a function of the
  state.
\<close>

definition with_patch_dill :: "(world \<Rightarrow> 'r \<times> world) \<Rightarrow> world \<Rightarrow> 'r \<times> world" where
  "with_patch_dill body w =
     (let (pf, w1) = patch_dill_enter w;
          (r, w2) = body w1
      in (r, patch_dill_exit pf w2))"

definition with_AcumosContextManager ::
  "path option \<Rightarrow> string \<Rightarrow> (nat \<Rightarrow> world \<Rightarrow> error option \<times> world) \<Rightarrow> world \<Rightarrow> error option \<times> world" where
  "with_AcumosContextManager rootdir name body w =
     (case AcumosContextManager_enter w rootdir name of
        (Inl e, w1) \<Rightarrow> (Some e, w1)
      | (Inr f, w1) \<Rightarrow>
          (let (r, w2) = body (context_ref f) w1
           in AcumosContextManager_exit f r w2))"

subsection \<open>Type annotations and their codec\<close>

text \<open>
  \<^verbatim>\<open>_save_annotation\<close> calls \<^verbatim>\<open>pickler.save_reduce(_load_annotation, (t, args), obj=obj)\<close>.
  The result is the pair \<open>(t, args)\<close> and whether the call is made inside
  \<^verbatim>\<open>with _revert_dispatch(GenericMeta)\<close>.
\<close>

definition save_annotation :: "pytype \<Rightarrow> bool \<times> pytype \<times> pytype list option" where
  "save_annotation obj =
     (if origin obj = Some Dict \<or> origin obj = Some List
      then (False, the (origin obj), args obj)
      else (True, obj, None))"

text \<open>
  \<^verbatim>\<open>_load_annotation\<close>. Reading \<^verbatim>\<open>args[0]\<close> or \<^verbatim>\<open>args[1]\<close> of a tuple that is
  too short is an \<^verbatim>\<open>IndexError\<close>.
\<close>

definition load_annotation :: "pytype \<Rightarrow> pytype list option \<Rightarrow> error + pytype" where
  "load_annotation t as =
     (if t = Dict \<and> as \<noteq> None then
        (case the as of
           a0 # a1 # _ \<Rightarrow> Inr (Subscript Dict [a0, a1])
         | _ \<Rightarrow> Inl IndexError)
      else if t = List \<and> as \<noteq> None then
        (case the as of
           a0 # _ \<Rightarrow> Inr (Subscript List [a0])
         | [] \<Rightarrow> Inl IndexError)
      else Inr t)"

text \<open>
  What \<^verbatim>\<open>typing\<close> guarantees of a subscription of \<^verbatim>\<open>Dict\<close> or \<^verbatim>\<open>List\<close>: two
  arguments, respectively one. Subscribing with another number of arguments is a
  \<^verbatim>\<open>TypeError\<close> there, so no such annotation exists.
\<close>

definition arity_ok :: "pytype \<Rightarrow> bool" where
  "arity_ok obj =
     (if origin obj = Some Dict then length (the (args obj)) = 2
      else if origin obj = Some List then length (the (args obj)) = 1
      else True)"

subsection \<open>The context manager \_revert\_dispatch\<close>

text \<open>\<^verbatim>\<open>f = dill.Pickler.dispatch.pop(t)\<close>: a \<^verbatim>\<open>KeyError\<close> when \<open>t\<close> has no entry.\<close>

definition revert_dispatch_enter :: "world \<Rightarrow> ref \<Rightarrow> error + (handler \<times> world)" where
  "revert_dispatch_enter w t =
     (case dicts w (Pickler_dispatch w) t of
        None \<Rightarrow> Inl (KeyError_type t)
      | Some f \<Rightarrow>
          Inr (f, w\<lparr>dicts := (dicts w)(Pickler_dispatch w := (dicts w (Pickler_dispatch w))(t := None))\<rparr>))"

text \<open>\<^verbatim>\<open>dill.Pickler.dispatch[t] = f\<close>, in the \<^verbatim>\<open>finally\<close> clause.\<close>

definition revert_dispatch_exit :: "handler \<Rightarrow> ref \<Rightarrow> world \<Rightarrow> world" where
  "revert_dispatch_exit f t w =
     w\<lparr>dicts := (dicts w)(Pickler_dispatch w := (dicts w (Pickler_dispatch w))(t \<mapsto> f))\<rparr>"

definition with_revert_dispatch :: "ref \<Rightarrow> (world \<Rightarrow> error option \<times> world) \<Rightarrow> world \<Rightarrow> error option \<times> world" where
  "with_revert_dispatch t body w =
     (case revert_dispatch_enter w t of
        Inl e \<Rightarrow> (Some e, w)
      | Inr (f, w1) \<Rightarrow>
          (let (r, w2) = body w1 in (r, revert_dispatch_exit f t w2)))"

text \<open>
  Executing the module: the statements at its top level that touch the process state.
\<close>

definition module_import :: "world \<Rightarrow> world" where
  "module_import w =
     w\<lparr>contexts := Map.empty,
       dicts := (dicts w)(Pickler_dispatch w := (dicts w (Pickler_dispatch w))(GenericMeta \<mapsto> SaveAnnotation)),
       CUSTOM_DISPATCH := Map.empty\<rparr>"

subsection \<open>Objects and the pre-save hook\<close>

datatype payload = Annotation pytype | NamedTuple ntype | Opaque

text \<open>
  An object, by what reflection tells of it: its identity, \<^verbatim>\<open>inspect.isclass\<close>, the
  identity of its type, the pairs \<^verbatim>\<open>(t.__module__, t.__name__)\<close> along
  \<^verbatim>\<open>inspect.getmro\<close> of the object (when it is a class) or of its type, and the
  \<^verbatim>\<open>__name__\<close> of \<^verbatim>\<open>inspect.getmodule(obj)\<close>, if that is a module.
\<close>

record pyobj =
  oid :: ref
  isclass :: bool
  type_ref :: ref
  mro :: "(string \<times> string) list"
  getmodule_name :: "string option"
  payload :: payload

text \<open>
  Modelled from the spec: \<^verbatim>\<open>_is_namedtuple\<close> of \<^verbatim>\<open>modeling.py\<close>, which is not among
  the sources. It holds of the structurally typed record types.
\<close>

definition is_namedtuple :: "pyobj \<Rightarrow> bool" where
  "is_namedtuple obj = (case payload obj of NamedTuple nt \<Rightarrow> True | _ \<Rightarrow> False)"

text \<open>
  Modelled from the spec: \<^verbatim>\<open>namedtuple_field_types\<close> of \<^verbatim>\<open>utils.py\<close>, which is not
  among the sources. It returns the ordered mapping from field name to field type.
\<close>

definition namedtuple_field_types :: "ntype \<Rightarrow> (string \<times> pytype) list" where
  "namedtuple_field_types nt = odict_of (nt_fields nt)"

text \<open>
  Modelled from the spec: \<^verbatim>\<open>create_namedtuple\<close> of \<^verbatim>\<open>modeling.py\<close>, which is not
  among the sources. It defines a new record type from a name and a field layout: a
  type object is allocated in the state, under the next identity, and returned.
\<close>

definition create_namedtuple :: "world \<Rightarrow> string \<Rightarrow> (string \<times> pytype) list \<Rightarrow> ref \<times> world" where
  "create_namedtuple w name layout =
     (Ref (next_obj w),
      w\<lparr>types := (types w)(Ref (next_obj w) \<mapsto> \<lparr>nt_name = name, nt_fields = layout\<rparr>),
        next_obj := Suc (next_obj w)\<rparr>)"

text \<open>The type objects that exist have identities that have been given out.\<close>

definition types_ok :: "world \<Rightarrow> bool" where
  "types_ok w \<longleftrightarrow> (\<forall>k. types w (Ref k) \<noteq> None \<longrightarrow> k < next_obj w)"

text \<open>
  \<^verbatim>\<open>_save_namedtuple\<close>: the arguments of the call
  \<^verbatim>\<open>pickler.save_reduce(_load_namedtuple, (obj.__name__, field_types), obj=obj)\<close>.
\<close>

definition save_namedtuple :: "pyobj \<Rightarrow> error + (string \<times> (string \<times> pytype) list)" where
  "save_namedtuple obj =
     (case payload obj of
        NamedTuple nt \<Rightarrow> Inr (nt_name nt, namedtuple_field_types nt)
      | _ \<Rightarrow> Inl AttributeError)"

definition load_namedtuple :: "world \<Rightarrow> string \<Rightarrow> (string \<times> pytype) list \<Rightarrow> ref \<times> world" where
  "load_namedtuple w name field_types = create_namedtuple w name (map (\<lambda>(k, v). (k, v)) (items field_types))"

definition get_mro_paths :: "pyobj \<Rightarrow> string list" where
  "get_mro_paths obj = map (\<lambda>(m, n). m @ ''.'' @ n) (mro obj)"

text \<open>\<^verbatim>\<open>module.__name__.partition('.')\<close>, first component.\<close>

definition base_name :: "string \<Rightarrow> string" where
  "base_name n = takeWhile (\<lambda>c. c \<noteq> CHR ''.'') n"

definition get_base_module :: "world \<Rightarrow> pyobj \<Rightarrow> error + module option" where
  "get_base_module w obj =
     (case getmodule_name obj of
        Some n \<Rightarrow>
          (case sys_modules w (base_name n) of
             None \<Rightarrow> Inl (KeyError (base_name n))
           | Some m \<Rightarrow> Inr (Some m))
      | None \<Rightarrow> Inr None)"

text \<open>
  The loop over the paths of the method resolution order. It has no \<^verbatim>\<open>break\<close>: every
  path that is a key of \<^verbatim>\<open>_CUSTOM_DISPATCH\<close> assigns, so the last one stays.
\<close>

fun register_paths :: "(string \<rightharpoonup> handler) \<Rightarrow> ref \<Rightarrow> string list \<Rightarrow> dispatch_table \<Rightarrow> dispatch_table" where
  "register_paths cd t [] d = d"
| "register_paths cd t (p # ps) d =
     register_paths cd t ps (case cd p of Some h \<Rightarrow> d(t \<mapsto> h) | None \<Rightarrow> d)"

definition obj_type :: "pyobj \<Rightarrow> ref" where
  "obj_type obj = (if isclass obj then oid obj else type_ref obj)"

text \<open>
  The first block of \<^verbatim>\<open>_catch_object\<close>, which extends the current dispatch table
  when the type of the object has no entry.
\<close>

definition extend_dispatch :: "world \<Rightarrow> pyobj \<Rightarrow> world" where
  "extend_dispatch w obj =
     (if dicts w (Pickler_dispatch w) (obj_type obj) = None
      then w\<lparr>dicts := (dicts w)(Pickler_dispatch w :=
             register_paths (CUSTOM_DISPATCH w) (obj_type obj) (get_mro_paths obj)
               (dicts w (Pickler_dispatch w)))\<rparr>
      else w)"

text \<open>
  \<^verbatim>\<open>_catch_object\<close>. What it has written stays written when a later statement raises,
  so the result is the exception, if any, and the state.
\<close>

definition catch_object :: "world \<Rightarrow> pyobj \<Rightarrow> error option \<times> world" where
  "catch_object w obj =
     (let w1 = extend_dispatch w obj
      in case get_base_module w1 obj of
           Inl e \<Rightarrow> (Some e, w1)
         | Inr None \<Rightarrow> (None, w1)
         | Inr (Some base_module) \<Rightarrow>
             (if mod_name base_module \<in> BLACKLIST then (None, w1)
              else
                (case get_context w1 DEFAULT of
                   Inl e \<Rightarrow> (Some e, w1)
                 | Inr r \<Rightarrow>
                     (case add_module (importable w1) (ctx_heap w1 r) (ModuleObj base_module) of
                        Inl e \<Rightarrow> (Some e, w1)
                      | Inr c \<Rightarrow> (None, w1\<lparr>ctx_heap := (ctx_heap w1)(r := c)\<rparr>)))))"

text \<open>
  What a call of \<^verbatim>\<open>dill.Pickler.save\<close> hands on: the named-record codec's
  \<^verbatim>\<open>save_reduce\<close>, or the serializer's own save logic, which is outside the module.
\<close>

datatype save_action = SaveReduce string "(string \<times> pytype) list" | DefaultSave pyobj

text \<open>
  Calling the save primitive. \<open>WrappedSave pickler_save\<close> is the closure
  \<^verbatim>\<open>wrapped_save\<close>; \<open>pickler_save\<close> is the primitive it captured.
\<close>

fun call_save :: "save_prim \<Rightarrow> world \<Rightarrow> pyobj \<Rightarrow> (error + save_action) \<times> world" where
  "call_save StockSave w obj = (Inr (DefaultSave obj), w)"
| "call_save (WrappedSave pickler_save) w obj =
     (case catch_object w obj of
        (Some e, w1) \<Rightarrow> (Inl e, w1)
      | (None, w1) \<Rightarrow>
          (if is_namedtuple obj \<and> oid obj \<noteq> Empty
           then (case save_namedtuple obj of
                   Inl e \<Rightarrow> (Inl e, w1)
                 | Inr (name, field_types) \<Rightarrow> (Inr (SaveReduce name field_types), w1))
           else call_save pickler_save w1 obj))"

subsection \<open>Callers\<close>

text \<open>
  What the code between entering and leaving a session does with the module, as a
  sequence of steps: it pickles an object through the current save primitive; the
  serializer runs the annotation codec on an annotation, and inside the codec's
  \<^verbatim>\<open>save_reduce\<close> saves further objects; it raises; it opens a nested session.
\<close>

datatype step =
    Pickle pyobj
  | Codec pytype "step list"
  | Fail error
  | Session "path option" string "step list"

text \<open>Statements in sequence: the first exception ends the sequence.\<close>

fun seq :: "(world \<Rightarrow> error option \<times> world) list \<Rightarrow> world \<Rightarrow> error option \<times> world" where
  "seq [] w = (None, w)"
| "seq (f # fs) w =
     (case f w of
        (Some e, w1) \<Rightarrow> (Some e, w1)
      | (None, w1) \<Rightarrow> seq fs w1)"

primrec run_step :: "step \<Rightarrow> world \<Rightarrow> error option \<times> world" where
  "run_step (Pickle obj) =
     (\<lambda>w. case call_save (Pickler_save w) w obj of
             (Inl e, w1) \<Rightarrow> (Some e, w1)
           | (Inr a, w1) \<Rightarrow> (None, w1))"
| "run_step (Codec obj body) =
     (if fst (save_annotation obj)
      then with_revert_dispatch GenericMeta (seq (map run_step body))
      else seq (map run_step body))"
| "run_step (Fail e) = (\<lambda>w. (Some e, w))"
| "run_step (Session rootdir name body) =
     with_AcumosContextManager rootdir name (\<lambda>c. seq (map run_step body))"

definition run_steps :: "step list \<Rightarrow> world \<Rightarrow> error option \<times> world" where
  "run_steps body = seq (map run_step body)"

subsection \<open>A concrete process state\<close>

text \<open>
  The modules of the example: the two default modules, a package \<^verbatim>\<open>A\<close> with a
  submodule \<^verbatim>\<open>A.b\<close>, and a top-level script \<^verbatim>\<open>S\<close>, whose \<^verbatim>\<open>__package__\<close> is the
  empty string.
\<close>

definition gcumos_module :: module where
  "gcumos_module = \<lparr>mod_name = ''gcumos'', mod_package = Some ''gcumos''\<rparr>"

definition dill_module :: module where
  "dill_module = \<lparr>mod_name = ''dill'', mod_package = Some ''dill''\<rparr>"

definition package_A :: module where
  "package_A = \<lparr>mod_name = ''A'', mod_package = Some ''A''\<rparr>"

definition submodule_Ab :: module where
  "submodule_Ab = \<lparr>mod_name = ''A.b'', mod_package = Some ''A''\<rparr>"

definition script_S :: module where
  "script_S = \<lparr>mod_name = ''S'', mod_package = Some []\<rparr>"

definition example_modules :: "string \<rightharpoonup> module" where
  "example_modules =
     [''gcumos'' \<mapsto> gcumos_module, ''dill'' \<mapsto> dill_module, ''A'' \<mapsto> package_A,
      ''A.b'' \<mapsto> submodule_Ab, ''S'' \<mapsto> script_S]"

text \<open>
  The named tuple types of the example: a type with two fields, and the sentinel.
\<close>

definition point_layout :: ntype where
  "point_layout =
     \<lparr>nt_name = ''Point'',
      nt_fields = [(''x'', Class ''int''), (''tags'', Subscript List [Class ''str''])]\<rparr>"

definition empty_layout :: ntype where
  "empty_layout = \<lparr>nt_name = ''Empty'', nt_fields = []\<rparr>"

text \<open>
  A process before the module is imported: the serializer's table holds one entry of
  its own, no session is open, the directory \<^verbatim>\<open>/work\<close> exists, the modules of the
  example are loaded and its two named tuple types exist.
\<close>

definition fresh_process :: world where
  "fresh_process =
     \<lparr>contexts = Map.empty,
      ctx_heap = (\<lambda>a. \<lparr>modules = {}, root_dir = Path [], params_path = Path [], parameters = PDict []\<rparr>),
      next_ctx = 0,
      dicts = (\<lambda>a. [Ref 0 \<mapsto> StockHandler ''save_type'']),
      next_dict = 1,
      Pickler_dispatch = 0,
      Pickler_save = StockSave,
      CUSTOM_DISPATCH = Map.empty,
      dirs = {Path ''/work''},
      files = Map.empty,
      next_tmp = 0,
      sys_modules = example_modules,
      importable = example_modules,
      types = [Empty \<mapsto> empty_layout, Ref 20 \<mapsto> point_layout],
      next_obj = 21\<rparr>"

text \<open>The same process after the module has been imported.\<close>

definition imported_process :: world where
  "imported_process = module_import fresh_process"

text \<open>
  A session under the default name over \<^verbatim>\<open>/work\<close>: the frame of the suspended
  manager, the state in which the body starts, and a state in which the body has set a
  parameter.
\<close>

definition open_frame :: session_frame where
  "open_frame =
     \<lparr>patch = \<lparr>saved_dispatch = 0, saved_save = StockSave\<rparr>, sname = ''default'',
      owned_tmp = None, context_ref = 0\<rparr>"

definition open_process :: world where
  "open_process = snd (AcumosContextManager_enter imported_process (Some (Path ''/work'')) ''default'')"

definition edited_process :: world where
  "edited_process =
     open_process\<lparr>ctx_heap := (ctx_heap open_process)
       (0 := (ctx_heap open_process 0)\<lparr>parameters := PDict [(PStr ''epochs'', PInt 3)]\<rparr>)\<rparr>"

text \<open>The state after the body that set the parameter has completed and the session is left.\<close>

definition closed_process :: world where
  "closed_process = snd (AcumosContextManager_exit open_frame None edited_process)"

text \<open>
  Parameters with a tuple as a value and an integer as a key, and the open session with
  these parameters.
\<close>

definition tuple_params :: pyval where
  "tuple_params = PDict [(PStr ''shape'', PTuple [PInt 2, PInt 3]), (PInt 1, PStr ''x'')]"

definition tuple_process :: world where
  "tuple_process =
     open_process\<lparr>ctx_heap := (ctx_heap open_process)
       (0 := (ctx_heap open_process 0)\<lparr>parameters := tuple_params\<rparr>)\<rparr>"

text \<open>
  A session under the default name with no root directory given: the frame of the
  suspended manager and the state in which the body starts.
\<close>

definition temp_frame :: session_frame where
  "temp_frame =
     \<lparr>patch = \<lparr>saved_dispatch = 0, saved_save = StockSave\<rparr>, sname = ''default'',
      owned_tmp = Some (TempDir 0), context_ref = 0\<rparr>"

definition temp_process :: world where
  "temp_process = snd (AcumosContextManager_enter imported_process None ''default'')"

text \<open>
  Two objects to pickle: an instance of a class defined in \<^verbatim>\<open>A.b\<close> and a function
  defined in \<^verbatim>\<open>S\<close>.
\<close>

definition object_of_Ab :: pyobj where
  "object_of_Ab =
     \<lparr>oid = Ref 11, isclass = False, type_ref = Ref 10,
      mro = [(''A.b'', ''Model''), (''builtins'', ''object'')],
      getmodule_name = Some ''A.b'', payload = Opaque\<rparr>"

definition object_of_S :: pyobj where
  "object_of_S =
     \<lparr>oid = Ref 13, isclass = False, type_ref = Ref 12,
      mro = [(''builtins'', ''function''), (''builtins'', ''object'')],
      getmodule_name = Some ''S'', payload = Opaque\<rparr>"

text \<open>The context of the open session after \<^verbatim>\<open>add_module('A.b')\<close>.\<close>

definition dotted_context :: AcumosContext where
  "dotted_context =
     (ctx_heap open_process 0)\<lparr>modules := insert submodule_Ab (modules (ctx_heap open_process 0))\<rparr>"

subsection \<open>Notions used in the proofs\<close>

text \<open>
  \<open>allocated w\<close>: the current dispatch table is a dictionary that exists.
  \<open>table_frame w w'\<close> relates the state before and after a piece of code that leaves
  \<^verbatim>\<open>dill.Pickler.dispatch\<close> and \<^verbatim>\<open>dill.Pickler.save\<close> bound as they were, writes to
  no dictionary that existed before but the current one, and does not write to that one
  either when the save primitive is the serializer's own.
\<close>

definition allocated :: "world \<Rightarrow> bool" where
  "allocated w \<longleftrightarrow> Pickler_dispatch w < next_dict w"

definition table_frame :: "world \<Rightarrow> world \<Rightarrow> bool" where
  "table_frame w w' \<longleftrightarrow>
     Pickler_dispatch w' = Pickler_dispatch w \<and> Pickler_save w' = Pickler_save w
     \<and> next_dict w \<le> next_dict w'
     \<and> (\<forall>a<next_dict w. a \<noteq> Pickler_dispatch w \<longrightarrow> dicts w' a = dicts w a)
     \<and> (Pickler_save w = StockSave \<longrightarrow> dicts w' (Pickler_dispatch w) = dicts w (Pickler_dispatch w))"

definition frames :: "(world \<Rightarrow> error option \<times> world) \<Rightarrow> bool" where
  "frames f \<longleftrightarrow> (\<forall>w. allocated w \<longrightarrow> table_frame w (snd (f w)))"

subsection \<open>Further concrete states and objects\<close>

text \<open>
  The imported process with one entry in \<^verbatim>\<open>_CUSTOM_DISPATCH\<close>, for the class of the
  object defined in \<^verbatim>\<open>A.b\<close>; a session in it whose body pickles that object and then
  raises; and steps run in it while no session is open.
\<close>

definition custom_process :: world where
  "custom_process = imported_process\<lparr>CUSTOM_DISPATCH := [''A.b.Model'' \<mapsto> CustomHandler ''save_model'']\<rparr>"

definition failing_session :: "error option \<times> world" where
  "failing_session =
     with_AcumosContextManager (Some (Path ''/work'')) ''default''
       (\<lambda>c. run_steps [Pickle object_of_Ab, Fail (UserError ''boom'')]) custom_process"

definition outside_steps :: "step list" where
  "outside_steps =
     [Pickle object_of_Ab,
      Session (Some (Path ''/work'')) ''default'' [Pickle object_of_Ab],
      Codec (Subscript (Class ''Set'') [Class ''int'']) [Pickle object_of_S]]"

text \<open>
  The two named tuple types as objects, and an annotation.
\<close>

definition point_type :: pyobj where
  "point_type =
     \<lparr>oid = Ref 20, isclass = True, type_ref = Ref 1,
      mro = [(''A.b'', ''Point''), (''builtins'', ''tuple''), (''builtins'', ''object'')],
      getmodule_name = Some ''A.b'', payload = NamedTuple point_layout\<rparr>"

definition empty_type :: pyobj where
  "empty_type =
     \<lparr>oid = Empty, isclass = True, type_ref = Ref 1,
      mro = [(''gcumos.modeling'', ''Empty''), (''builtins'', ''tuple''), (''builtins'', ''object'')],
      getmodule_name = Some ''gcumos.modeling'', payload = NamedTuple empty_layout\<rparr>"

definition dict_annotation :: pytype where
  "dict_annotation = Subscript Dict [Class ''str'', Subscript List [Class ''int'']]"

section \<open>Properties of the values\<close>

lemma odict_set_fresh:
  assumes "k \<notin> fst ` set d"
  shows "odict_set k v d = d @ [(k, v)]"
  using assms by (induction d) auto

lemma odict_fold_distinct:
  assumes "distinct (map fst (d @ ps))"
  shows "foldl (\<lambda>d (k, v). odict_set k v d) d ps = d @ ps"
  using assms
proof (induction ps arbitrary: d)
  case Nil
  then show ?case by simp
next
  case (Cons p ps)
  obtain k v where p: "p = (k, v)" by (cases p)
  have "k \<notin> fst ` set d" using Cons.prems p by auto
  then have s: "odict_set k v d = d @ [(k, v)]" by (rule odict_set_fresh)
  have "distinct (map fst ((d @ [(k, v)]) @ ps))" using Cons.prems p by simp
  from Cons.IH [OF this] show ?case by (simp add: p s)
qed

lemma odict_of_distinct:
  assumes "distinct (map fst ps)"
  shows "odict_of ps = ps"
  using odict_fold_distinct [of "[]" ps] assms by (simp add: odict_of_def)

lemma those_map_Some:
  assumes "\<forall>x \<in> set xs. f x \<noteq> None"
  shows "those (map f xs) = Some (map (\<lambda>x. the (f x)) xs)"
  using assms by (induction xs) auto

text \<open>
  Writing a value and reading it again: the value comes back as it was when it holds no
  tuple, no object of another class and no key that is not a string.
\<close>

lemma json_native_roundtrip:
  "json_native p \<Longrightarrow> to_json p \<noteq> None \<and> of_json (the (to_json p)) = p"
proof (induction p rule: to_json.induct)
  case (6 xs)
  then have ih: "\<forall>x \<in> set xs. to_json x \<noteq> None \<and> of_json (the (to_json x)) = x"
    by (auto simp: list_all_iff)
  then have t: "those (map to_json xs) = Some (map (\<lambda>x. the (to_json x)) xs)"
    by (intro those_map_Some) auto
  have "map (of_json \<circ> (\<lambda>x. the (to_json x))) xs = xs"
    using ih by (intro map_idI) auto
  then show ?case by (simp add: t)
next
  case (8 kvs)
  let ?f = "\<lambda>(k, v). case key_str k of None \<Rightarrow> None | Some s \<Rightarrow> map_option (Pair s) (to_json v)"
  have each: "\<exists>s. k = PStr s \<and> to_json v \<noteq> None \<and> of_json (the (to_json v)) = v"
    if "(k, v) \<in> set kvs" for k v
  proof -
    from that "8.prems" have n: "is_str k" "json_native v" by (auto simp: list_all_iff)
    then obtain s where s: "k = PStr s" by (cases k) auto
    have "to_json v \<noteq> None \<and> of_json (the (to_json v)) = v"
      using "8.IH" that n s by fastforce
    with s show ?thesis by simp
  qed
  have ok: "\<forall>x \<in> set kvs. ?f x \<noteq> None"
    using each by fastforce
  have t: "those (map ?f kvs) = Some (map (\<lambda>x. the (?f x)) kvs)"
    using ok by (rule those_map_Some)
  have "map ((\<lambda>(s, j). (PStr s, of_json j)) \<circ> (\<lambda>x. the (?f x))) kvs = kvs"
  proof (intro map_idI)
    fix x assume x: "x \<in> set kvs"
    obtain k v where kv: "x = (k, v)" by (cases x)
    from each [of k v] x kv obtain s where "k = PStr s" "to_json v \<noteq> None" "of_json (the (to_json v)) = v"
      by auto
    then show "((\<lambda>(s, j). (PStr s, of_json j)) \<circ> (\<lambda>x. the (?f x))) x = x"
      by (auto simp: kv)
  qed
  moreover have "distinct (map fst kvs)" using "8.prems" by simp
  ultimately show ?case
    by (simp add: t odict_of_distinct)
qed simp_all

section \<open>Properties of the session manager\<close>

lemmas session_defs =
  AcumosContextManager_enter_def AcumosContextManager_exit_def unwind_def del_context_def
  patch_dill_enter_def patch_dill_exit_def DirManager_enter_def DirManager_exit_def rmtree_def
  AcumosContext_init_def save_params_def load_params_def add_module_def DEFAULT_MODULES_def

lemmas example_defs =
  fresh_process_def module_import_def imported_process_def example_modules_def
  gcumos_module_def dill_module_def package_A_def submodule_Ab_def script_S_def open_frame_def

lemmas hook_defs =
  catch_object_def extend_dispatch_def get_base_module_def base_name_def obj_type_def
  get_mro_paths_def get_context_def DEFAULT_def BLACKLIST_def is_namedtuple_def

lemma open_process_enter:
  "AcumosContextManager_enter imported_process (Some (Path ''/work'')) ''default'' =
     (Inr open_frame, open_process)"
  by (rule prod_eqI) (simp_all add: open_process_def session_defs example_defs)

lemma open_process_contexts: "contexts open_process ''default'' = Some 0"
  by (simp add: open_process_def session_defs example_defs)

lemma edited_process_contexts: "contexts edited_process ''default'' = Some 0"
  by (simp add: edited_process_def open_process_contexts)

lemma open_process_importable:
  "importable open_process ''gcumos'' = Some gcumos_module"
  "importable open_process ''dill'' = Some dill_module"
  by (simp_all add: open_process_def session_defs example_defs)

subsection \<open>Opening a name that is in use\<close>

lemma enter_name_in_use:
  assumes "contexts w name = Some a"
  shows "AcumosContextManager_enter w rootdir name =
           (Inl (Exception (ContextAlreadyCreated name)),
            w\<lparr>dicts := (dicts w)(next_dict w := dicts w (Pickler_dispatch w)),
              next_dict := Suc (next_dict w)\<rparr>)"
  using assms
  by (simp add: AcumosContextManager_enter_def patch_dill_enter_def patch_dill_exit_def)

text \<open>
  Claim C10. An open that fails because the name already has an active context leaves
  the registry as it was: the context registered under the name is still the one that
  \<open>get_context\<close> returns, and no context object has been changed, so its module set and
  its parameters are the ones it had.
\<close>

theorem failed_open_keeps_registry:
  assumes "contexts w name = Some a"
  shows "fst (AcumosContextManager_enter w rootdir name) = Inl (Exception (ContextAlreadyCreated name))
       \<and> contexts (snd (AcumosContextManager_enter w rootdir name)) = contexts w
       \<and> get_context (snd (AcumosContextManager_enter w rootdir name)) name = Inr a
       \<and> ctx_heap (snd (AcumosContextManager_enter w rootdir name)) = ctx_heap w
       \<and> modules (ctx_heap (snd (AcumosContextManager_enter w rootdir name)) a) = modules (ctx_heap w a)
       \<and> parameters (ctx_heap (snd (AcumosContextManager_enter w rootdir name)) a) = parameters (ctx_heap w a)"
  using assms by (simp add: enter_name_in_use get_context_def)

theorem failed_open_keeps_registry_witness:
  "contexts edited_process ''default'' = Some 0
   \<and> fst (AcumosContextManager_enter edited_process None ''default'')
       = Inl (Exception (ContextAlreadyCreated ''default''))
   \<and> get_context (snd (AcumosContextManager_enter edited_process None ''default'')) ''default'' = Inr 0
   \<and> parameters (ctx_heap (snd (AcumosContextManager_enter edited_process None ''default'')) 0)
       = PDict [(PStr ''epochs'', PInt 3)]"
  using failed_open_keeps_registry [OF edited_process_contexts, of None]
  by (simp add: edited_process_contexts) (simp add: edited_process_def)

subsection \<open>Reopening a name\<close>

lemma unwind_contexts:
  "contexts (snd (unwind pf name owned exc w)) = (contexts w)(name := None)"
proof -
  have "contexts (DirManager_exit owned w) = contexts w"
    by (cases owned) (simp_all add: DirManager_exit_def rmtree_def)
  then show ?thesis
    by (auto simp: unwind_def del_context_def patch_dill_exit_def Let_def split_def)
qed

lemma unwind_importable:
  "importable (snd (unwind pf name owned exc w)) = importable w"
proof -
  have "importable (DirManager_exit owned w) = importable w"
    by (cases owned) (simp_all add: DirManager_exit_def rmtree_def)
  then show ?thesis
    by (simp add: unwind_def del_context_def patch_dill_exit_def Let_def split_def)
qed

lemma save_params_fields:
  "contexts (snd (save_params w c)) = contexts w"
  "importable (snd (save_params w c)) = importable w"
  "dirs (snd (save_params w c)) = dirs w"
  "Pickler_dispatch (snd (save_params w c)) = Pickler_dispatch w"
  "Pickler_save (snd (save_params w c)) = Pickler_save w"
  "dicts (snd (save_params w c)) = dicts w"
  "next_dict (snd (save_params w c)) = next_dict w"
  by (simp_all add: save_params_def)

lemma exit_contexts:
  "contexts (snd (AcumosContextManager_exit f outcome w)) = (contexts w)(sname f := None)"
  by (cases outcome)
     (simp_all add: AcumosContextManager_exit_def unwind_contexts split_def Let_def save_params_fields)

lemma exit_importable:
  "importable (snd (AcumosContextManager_exit f outcome w)) = importable w"
  by (cases outcome)
     (simp_all add: AcumosContextManager_exit_def unwind_importable split_def Let_def save_params_fields)

lemma add_modules_default:
  assumes "imp ''gcumos'' = Some g" "imp ''dill'' = Some d"
  shows "add_modules imp c DEFAULT_MODULES = Inr (c\<lparr>modules := insert d (insert g (modules c))\<rparr>)"
  using assms by (simp add: DEFAULT_MODULES_def add_module_def)

lemma load_params_readable:
  assumes "files w pp \<noteq> Some Malformed"
  shows "\<exists>p. load_params w pp = Inr p"
proof (cases "files w pp")
  case None
  then show ?thesis by (simp add: load_params_def)
next
  case (Some x)
  with assms show ?thesis by (cases x) (simp_all add: load_params_def)
qed

lemma init_loads:
  assumes "root \<in> dirs w" "importable w ''gcumos'' = Some g" "importable w ''dill'' = Some d"
      and "load_params w (Join root ''context.json'') = Inr p"
  shows "AcumosContext_init w root =
           Inr \<lparr>modules = {d, g}, root_dir = root, params_path = Join root ''context.json'',
                parameters = p\<rparr>"
  using assms by (simp add: AcumosContext_init_def add_modules_default Let_def)

lemma enter_succeeds:
  assumes free: "contexts w name = None"
      and env: "importable w ''gcumos'' = Some g" "importable w ''dill'' = Some d"
      and root: "case rootdir of None \<Rightarrow> True
                 | Some p \<Rightarrow> p \<in> dirs w \<and> files w (Join p ''context.json'') \<noteq> Some Malformed"
  shows "\<exists>f. fst (AcumosContextManager_enter w rootdir name) = Inr f \<and> sname f = name"
proof (cases rootdir)
  case None
  then show ?thesis
    using free env
    by (simp add: AcumosContextManager_enter_def patch_dill_enter_def DirManager_enter_def
          AcumosContext_init_def load_params_def add_modules_default Let_def restrict_map_def)
next
  case (Some p)
  with root have p: "p \<in> dirs w" "files w (Join p ''context.json'') \<noteq> Some Malformed" by simp_all
  obtain wp pf where e: "patch_dill_enter w = (pf, wp)" by force
  then have wp: "contexts wp = contexts w" "importable wp = importable w" "dirs wp = dirs w"
      "files wp = files w"
    by (auto simp: patch_dill_enter_def)
  from p(2) wp obtain q where q: "load_params wp (Join p ''context.json'') = Inr q"
    using load_params_readable [of wp "Join p ''context.json''"] by auto
  have "AcumosContext_init wp p
          = Inr \<lparr>modules = {d, g}, root_dir = p, params_path = Join p ''context.json'', parameters = q\<rparr>"
    using p(1) env wp q by (intro init_loads) simp_all
  then show ?thesis
    using Some free e wp p(1)
    by (simp add: AcumosContextManager_enter_def DirManager_enter_def)
qed

lemma enter_success_frame:
  assumes "AcumosContextManager_enter w rd name = (Inr f, w1)"
  shows "sname f = name \<and> contexts w1 name = Some (context_ref f)"
proof -
  obtain pf wp where p: "patch_dill_enter w = (pf, wp)" by force
  show ?thesis
  proof (cases "contexts wp name")
    case (Some a)
    with assms p show ?thesis by (simp add: AcumosContextManager_enter_def)
  next
    case None
    note free = this
    show ?thesis
    proof (cases "DirManager_enter wp rd")
      case (Inl e)
      with assms p free show ?thesis
        by (simp add: AcumosContextManager_enter_def split_def Let_def)
    next
      case (Inr x)
      then obtain root owned w2 where d: "DirManager_enter wp rd = Inr (root, owned, w2)"
        by (cases x) auto
      show ?thesis
      proof (cases "AcumosContext_init w2 root")
        case (Inl e)
        with assms p free d show ?thesis
          by (simp add: AcumosContextManager_enter_def split_def Let_def)
      next
        case (Inr c)
        with assms p free d show ?thesis
          by (auto simp: AcumosContextManager_enter_def)
      qed
    qed
  qed
qed

lemma unwind_files:
  "files (snd (unwind pf name owned exc w)) = files (DirManager_exit owned w)"
  by (simp add: unwind_def del_context_def patch_dill_exit_def Let_def split_def)

lemma unwind_no_tmp:
  "files (snd (unwind pf name None exc w)) = files w"
  by (simp add: unwind_files DirManager_exit_def)

lemma save_params_ok:
  assumes "save_params w0 c = (None, w)"
  shows "\<exists>j. to_json (parameters c) = Some j \<and> files w (params_path c) = Some (Document j)"
proof (cases "to_json (parameters c)")
  case None
  with assms show ?thesis by (simp add: save_params_def split: if_splits)
next
  case (Some j)
  with assms show ?thesis
    by (auto simp: save_params_def written_def split: if_splits)
qed

lemma unwind_raises:
  assumes "fst (unwind pf name owned exc w) = None"
  shows "exc = None"
  using assms by (simp add: unwind_def Let_def split_def split: option.splits)

lemma exit_clean_saved:
  assumes x: "AcumosContextManager_exit f None w2 = (None, w)" and o: "owned_tmp f = None"
  shows "\<exists>w1. save_params w2 (ctx_heap w2 (context_ref f)) = (None, w1) \<and> files w = files w1"
proof -
  obtain x1 w1 where s: "save_params w2 (ctx_heap w2 (context_ref f)) = (x1, w1)" by force
  have e: "AcumosContextManager_exit f None w2 = unwind (patch f) (sname f) None x1 w1"
    by (simp add: AcumosContextManager_exit_def s o)
  have "fst (unwind (patch f) (sname f) None x1 w1) = None" using x e by simp
  then have "x1 = None" by (rule unwind_raises)
  moreover have "files w = files w1"
    using x e unwind_no_tmp [of "patch f" "sname f" x1 w1] by simp
  ultimately show ?thesis using s by simp
qed

text \<open>
  Claim C4. While a session is open under a name, that is from the state in which its
  body starts and in every later state in which the name is still registered, opening a
  session under the same name fails with the error that the context has already been
  created, which is a configuration error. Once the first session has been left, whether
  its body completed or raised, the name can be opened again: the open succeeds when the
  two default modules can be imported and the root directory, if one is given, exists
  and holds no parameter file that cannot be read. After a session over a given root has
  been left without an exception, its parameter file can be read: a session under the
  same name over the same root opens.
\<close>

theorem same_name_sessions:
  assumes first: "AcumosContextManager_enter w rd name = (Inr f, w1)"
      and during: "contexts w2 name = Some (context_ref f)"
      and env: "importable w2 ''gcumos'' = Some g" "importable w2 ''dill'' = Some d"
      and root: "case rd' of None \<Rightarrow> True
                 | Some p \<Rightarrow> p \<in> dirs (snd (AcumosContextManager_exit f outcome w2))
                     \<and> files (snd (AcumosContextManager_exit f outcome w2)) (Join p ''context.json'')
                         \<noteq> Some Malformed"
  shows "fst (AcumosContextManager_enter w1 rd2 name) = Inl (Exception (ContextAlreadyCreated name))
       \<and> fst (AcumosContextManager_enter w2 rd2 name) = Inl (Exception (ContextAlreadyCreated name))
       \<and> ConfigurationError (Exception (ContextAlreadyCreated name))
       \<and> (\<exists>f'. fst (AcumosContextManager_enter (snd (AcumosContextManager_exit f outcome w2)) rd' name) = Inr f')
       \<and> (fst (AcumosContextManager_exit f None w2) = None \<and> owned_tmp f = None
            \<and> params_path (ctx_heap w2 (context_ref f)) = Join r ''context.json''
            \<and> r \<in> dirs (snd (AcumosContextManager_exit f None w2)) \<longrightarrow>
           (\<exists>f'. fst (AcumosContextManager_enter (snd (AcumosContextManager_exit f None w2)) (Some r) name)
                   = Inr f'))"
proof -
  from first have f: "sname f = name" and reg: "contexts w1 name = Some (context_ref f)"
    using enter_success_frame by blast+
  have a: "fst (AcumosContextManager_enter w1 rd2 name) = Inl (Exception (ContextAlreadyCreated name))"
    using reg by (simp add: enter_name_in_use)
  have b: "fst (AcumosContextManager_enter w2 rd2 name) = Inl (Exception (ContextAlreadyCreated name))"
    using during by (simp add: enter_name_in_use)
  let ?w3 = "snd (AcumosContextManager_exit f outcome w2)"
  have free: "contexts ?w3 name = None"
    by (simp add: exit_contexts f)
  have c: "\<exists>f'. fst (AcumosContextManager_enter ?w3 rd' name) = Inr f' \<and> sname f' = name"
    using free env root by (intro enter_succeeds) (simp_all add: exit_importable)
  let ?w4 = "snd (AcumosContextManager_exit f None w2)"
  have e: "\<exists>f'. fst (AcumosContextManager_enter ?w4 (Some r) name) = Inr f'"
    if clean: "fst (AcumosContextManager_exit f None w2) = None" and own: "owned_tmp f = None"
      and pp: "params_path (ctx_heap w2 (context_ref f)) = Join r ''context.json''"
      and there: "r \<in> dirs ?w4"
  proof -
    have x: "AcumosContextManager_exit f None w2 = (None, ?w4)"
      using clean by (simp add: prod_eq_iff)
    from exit_clean_saved [OF x own]
    obtain w5 where w5: "save_params w2 (ctx_heap w2 (context_ref f)) = (None, w5)" "files ?w4 = files w5"
      by blast
    from save_params_ok [OF w5(1)] pp w5(2)
    have readable: "files ?w4 (Join r ''context.json'') \<noteq> Some Malformed" by auto
    have "contexts ?w4 name = None" by (simp add: exit_contexts f)
    then have "\<exists>f'. fst (AcumosContextManager_enter ?w4 (Some r) name) = Inr f' \<and> sname f' = name"
      using env there readable by (intro enter_succeeds) (simp_all add: exit_importable)
    then show ?thesis by blast
  qed
  show ?thesis using a b c e by auto
qed

lemma edited_process_importable:
  "importable edited_process ''gcumos'' = Some gcumos_module"
  "importable edited_process ''dill'' = Some dill_module"
  by (simp_all add: edited_process_def open_process_importable)

lemma edited_exit_dirs:
  "Path ''/work'' \<in> dirs (snd (AcumosContextManager_exit open_frame None edited_process))"
  by (simp add: edited_process_def open_process_def session_defs example_defs)

lemma edited_exit_file:
  "files (snd (AcumosContextManager_exit open_frame None edited_process))
     (Join (Path ''/work'') ''context.json'') = Some (Document (JDict [(''epochs'', JInt 3)]))"
  by (simp add: edited_process_def open_process_def session_defs example_defs written_def)

theorem same_name_sessions_witness:
  "AcumosContextManager_enter imported_process (Some (Path ''/work'')) ''default'' = (Inr open_frame, open_process)
   \<and> contexts edited_process ''default'' = Some (context_ref open_frame)
   \<and> fst (AcumosContextManager_enter edited_process (Some (Path ''/work'')) ''default'')
        = Inl (Exception (ContextAlreadyCreated ''default''))
   \<and> (\<exists>f'. fst (AcumosContextManager_enter (snd (AcumosContextManager_exit open_frame None edited_process))
                 (Some (Path ''/work'')) ''default'') = Inr f')"
proof -
  have during: "contexts edited_process ''default'' = Some (context_ref open_frame)"
    by (simp add: edited_process_contexts open_frame_def)
  have root: "case Some (Path ''/work'') of None \<Rightarrow> True
              | Some p \<Rightarrow> p \<in> dirs (snd (AcumosContextManager_exit open_frame None edited_process))
                  \<and> files (snd (AcumosContextManager_exit open_frame None edited_process))
                       (Join p ''context.json'') \<noteq> Some Malformed"
    by (simp add: edited_exit_dirs edited_exit_file)
  from same_name_sessions [OF open_process_enter during edited_process_importable root]
  show ?thesis using open_process_enter during by blast
qed

subsection \<open>Leaving a session\<close>

lemma exit_raise_files:
  "files (snd (AcumosContextManager_exit f (Some e) w)) = files (DirManager_exit (owned_tmp f) w)"
  by (simp add: AcumosContextManager_exit_def unwind_files)

lemma exit_clean_files:
  assumes "root_dir (ctx_heap w (context_ref f)) \<in> dirs w"
  shows "files (snd (AcumosContextManager_exit f None w)) =
          files (DirManager_exit (owned_tmp f)
                   (w\<lparr>files := (files w)(params_path (ctx_heap w (context_ref f)) \<mapsto>
                                          written (parameters (ctx_heap w (context_ref f))))\<rparr>))"
  using assms by (simp add: AcumosContextManager_exit_def unwind_files save_params_def)

text \<open>
  Claim C5. Leaving a session removes its name from the registry on every path and leaves
  the other names alone. When the body raised, no file is written: the files are those
  of the state the body left, less what the removal of a temporary root takes away. When
  the body completed and the root directory exists, the parameters of the context are
  written to its parameter file before that removal.
\<close>

theorem close_persists_on_success_only:
  "contexts (snd (AcumosContextManager_exit f outcome w)) = (contexts w)(sname f := None)
   \<and> files (snd (AcumosContextManager_exit f (Some e) w)) = files (DirManager_exit (owned_tmp f) w)
   \<and> (root_dir (ctx_heap w (context_ref f)) \<in> dirs w \<longrightarrow>
        files (snd (AcumosContextManager_exit f None w)) =
          files (DirManager_exit (owned_tmp f)
                   (w\<lparr>files := (files w)(params_path (ctx_heap w (context_ref f)) \<mapsto>
                                          written (parameters (ctx_heap w (context_ref f))))\<rparr>)))"
  using exit_contexts exit_raise_files exit_clean_files by blast

lemma edited_process_root:
  "root_dir (ctx_heap edited_process (context_ref open_frame)) \<in> dirs edited_process"
  by (simp add: edited_process_def open_process_def session_defs example_defs)

lemma edited_process_files: "files edited_process = Map.empty"
  by (simp add: edited_process_def open_process_def session_defs example_defs)

lemma edited_process_ctx:
  "params_path (ctx_heap edited_process 0) = Join (Path ''/work'') ''context.json''"
  "parameters (ctx_heap edited_process 0) = PDict [(PStr ''epochs'', PInt 3)]"
  by (simp_all add: edited_process_def open_process_def session_defs example_defs)

theorem close_persists_on_success_only_witness:
  "root_dir (ctx_heap edited_process (context_ref open_frame)) \<in> dirs edited_process
   \<and> files (snd (AcumosContextManager_exit open_frame None edited_process))
       = [Join (Path ''/work'') ''context.json'' \<mapsto> Document (JDict [(''epochs'', JInt 3)])]
   \<and> files (snd (AcumosContextManager_exit open_frame (Some (UserError ''boom'')) edited_process))
       = Map.empty
   \<and> contexts (snd (AcumosContextManager_exit open_frame None edited_process)) ''default'' = None
   \<and> contexts (snd (AcumosContextManager_exit open_frame (Some (UserError ''boom'')) edited_process))
       ''default'' = None"
  using close_persists_on_success_only [of open_frame None edited_process "UserError ''boom''"]
        close_persists_on_success_only [of open_frame "Some (UserError ''boom'')" edited_process "UserError ''boom''"]
        edited_process_root
  by (simp add: edited_process_files edited_process_ctx DirManager_exit_def open_frame_def written_def)

subsection \<open>A root directory that does not exist\<close>

lemma missing_root_masked:
  assumes "d \<notin> dirs w" "contexts w name = None"
  shows "fst (AcumosContextManager_enter w (Some d) name) = Inl (KeyError name)
       \<and> dirs (snd (AcumosContextManager_enter w (Some d) name)) = dirs w
       \<and> next_tmp (snd (AcumosContextManager_enter w (Some d) name)) = next_tmp w
       \<and> contexts (snd (AcumosContextManager_enter w (Some d) name)) = contexts w"
  using assms
  by (simp add: AcumosContextManager_enter_def patch_dill_enter_def patch_dill_exit_def
        DirManager_enter_def del_context_def)

text \<open>
  Claim C6. With a root directory that does not exist and a name that is free, the
  directory manager raises the exception that names the directory inside the
  \<^verbatim>\<open>try\<close> block. The \<^verbatim>\<open>finally\<close> clause then deletes a registry entry that was
  never made, and its \<^verbatim>\<open>KeyError\<close> replaces the exception in flight: the caller sees
  a \<^verbatim>\<open>KeyError\<close> with the session name. No directory is created and nothing is
  registered.
\<close>

theorem missing_root_raises_KeyError:
  "fst (AcumosContextManager_enter imported_process (Some (Path ''/nonexistent'')) ''default'')
     = Inl (KeyError ''default'')
   \<and> \<not> ConfigurationError (KeyError ''default'')
   \<and> dirs (snd (AcumosContextManager_enter imported_process (Some (Path ''/nonexistent'')) ''default''))
       = dirs imported_process
   \<and> contexts (snd (AcumosContextManager_enter imported_process (Some (Path ''/nonexistent'')) ''default''))
       ''default'' = None"
  by (simp add: session_defs example_defs)



subsection \<open>Reloading parameters\<close>

lemma reload_written:
  assumes env: "importable w ''gcumos'' \<noteq> None" "importable w ''dill'' \<noteq> None"
      and root: "root \<in> dirs w"
      and j: "to_json p = Some j"
      and doc: "files w (Join root ''context.json'') = Some (Document j)"
  shows "\<exists>c'. AcumosContext_init w root = Inr c' \<and> parameters c' = of_json j
              \<and> (json_native p \<longrightarrow> parameters c' = p)"
proof -
  from env obtain g d where gd: "importable w ''gcumos'' = Some g" "importable w ''dill'' = Some d"
    by auto
  have l: "load_params w (Join root ''context.json'') = Inr (of_json j)"
    using doc by (simp add: load_params_def)
  note i = init_loads [OF root gd l]
  have "json_native p \<longrightarrow> of_json j = p"
    using json_native_roundtrip [of p] j by auto
  with i show ?thesis by simp
qed

text \<open>
  A session that made its own temporary root removes it on leaving, with the parameter
  file in it: a context can no longer be constructed over that root.
\<close>

lemma temp_root_gone:
  assumes "owned_tmp f = Some t"
  shows "AcumosContext_init (snd (AcumosContextManager_exit f outcome w)) t = Inl (Exception (RootDirMissing t))"
proof -
  have "t \<notin> dirs (snd (unwind pf name (Some t) exc w'))" for pf name exc w'
    by (cases t) (simp_all add: unwind_def del_context_def patch_dill_exit_def Let_def split_def
       DirManager_exit_def rmtree_def)
  then have "t \<notin> dirs (snd (AcumosContextManager_exit f outcome w))"
    using assms by (cases outcome) (simp_all add: AcumosContextManager_exit_def split_def Let_def)
  then show ?thesis by (simp add: AcumosContext_init_def)
qed

text \<open>
  Claim C8, as amended. In a state \<open>w\<close> where the root directory exists and the default
  modules can be imported: when the root holds no parameter file, constructing a context
  over it gives the empty dictionary; when \<open>save_params\<close> of a context has just
  produced \<open>w\<close> without raising, or leaving a session over an explicitly given root
  after its body completed has, constructing a context over the root gives what
  \<^verbatim>\<open>json.load\<close> reads from what \<^verbatim>\<open>json.dump\<close> wrote of the parameters, and that is
  the saved dictionary itself when it holds only what JSON has: string keys and no tuples.
  A session that made its own temporary root leaves no root to construct a context over:
  the construction raises, naming the missing directory.
\<close>

theorem reload_saved_params:
  assumes env: "importable w ''gcumos'' \<noteq> None" "importable w ''dill'' \<noteq> None"
      and root: "root \<in> dirs w"
  shows "(files w (Join root ''context.json'') = None \<longrightarrow>
            (\<exists>c'. AcumosContext_init w root = Inr c' \<and> parameters c' = PDict []))
       \<and> (\<forall>w0 c. save_params w0 c = (None, w) \<and> params_path c = Join root ''context.json'' \<longrightarrow>
            (\<exists>c' j. to_json (parameters c) = Some j \<and> AcumosContext_init w root = Inr c'
                \<and> parameters c' = of_json j
                \<and> (json_native (parameters c) \<longrightarrow> parameters c' = parameters c)))
       \<and> (\<forall>f w2. AcumosContextManager_exit f None w2 = (None, w) \<and> owned_tmp f = None
                 \<and> params_path (ctx_heap w2 (context_ref f)) = Join root ''context.json'' \<longrightarrow>
            (\<exists>c' j. to_json (parameters (ctx_heap w2 (context_ref f))) = Some j
                \<and> AcumosContext_init w root = Inr c' \<and> parameters c' = of_json j
                \<and> (json_native (parameters (ctx_heap w2 (context_ref f)))
                     \<longrightarrow> parameters c' = parameters (ctx_heap w2 (context_ref f)))))
       \<and> (\<forall>f t outcome w2. owned_tmp f = Some t \<longrightarrow>
            AcumosContext_init (snd (AcumosContextManager_exit f outcome w2)) t
              = Inl (Exception (RootDirMissing t)))"
proof -
  let ?pp = "Join root ''context.json''"
  from env obtain g d where gd: "importable w ''gcumos'' = Some g" "importable w ''dill'' = Some d"
    by auto
  have a: "\<exists>c'. AcumosContext_init w root = Inr c' \<and> parameters c' = PDict []"
    if "files w ?pp = None"
  proof -
    have "load_params w ?pp = Inr (PDict [])" using that by (simp add: load_params_def)
    from init_loads [OF root gd this] show ?thesis by simp
  qed
  have b: "\<exists>c' j. to_json (parameters c) = Some j \<and> AcumosContext_init w root = Inr c'
                \<and> parameters c' = of_json j
                \<and> (json_native (parameters c) \<longrightarrow> parameters c' = parameters c)"
    if "save_params w0 c = (None, w)" "params_path c = ?pp" for w0 c
  proof -
    from save_params_ok [OF that(1)] that(2)
    obtain j where j: "to_json (parameters c) = Some j" "files w ?pp = Some (Document j)" by auto
    from reload_written [OF env root j] j(1) show ?thesis by blast
  qed
  have c: "\<exists>c' j. to_json (parameters (ctx_heap w2 (context_ref f))) = Some j
                \<and> AcumosContext_init w root = Inr c' \<and> parameters c' = of_json j
                \<and> (json_native (parameters (ctx_heap w2 (context_ref f)))
                     \<longrightarrow> parameters c' = parameters (ctx_heap w2 (context_ref f)))"
    if "AcumosContextManager_exit f None w2 = (None, w)" "owned_tmp f = None"
       "params_path (ctx_heap w2 (context_ref f)) = ?pp" for f w2
  proof -
    from exit_clean_saved [OF that(1,2)]
    obtain w1 where w1: "save_params w2 (ctx_heap w2 (context_ref f)) = (None, w1)" "files w = files w1"
      by blast
    from save_params_ok [OF w1(1)] that(3) w1(2)
    obtain j where j: "to_json (parameters (ctx_heap w2 (context_ref f))) = Some j"
        "files w ?pp = Some (Document j)"
      by auto
    from reload_written [OF env root j] j(1) show ?thesis by blast
  qed
  show ?thesis using a b c temp_root_gone by blast
qed

lemma closed_process_exit:
  "AcumosContextManager_exit open_frame None edited_process = (None, closed_process)"
  by (rule prod_eqI)
     (simp_all add: closed_process_def edited_process_def open_process_def session_defs example_defs)

lemma closed_process_env:
  "importable closed_process ''gcumos'' \<noteq> None" "importable closed_process ''dill'' \<noteq> None"
  "Path ''/work'' \<in> dirs closed_process"
  by (simp_all add: closed_process_def exit_importable edited_process_importable edited_exit_dirs)

theorem reload_saved_params_witness:
  "importable closed_process ''gcumos'' \<noteq> None \<and> importable closed_process ''dill'' \<noteq> None
   \<and> Path ''/work'' \<in> dirs closed_process
   \<and> AcumosContextManager_exit open_frame None edited_process = (None, closed_process)
   \<and> json_native (parameters (ctx_heap edited_process (context_ref open_frame)))
   \<and> (\<exists>c'. AcumosContext_init closed_process (Path ''/work'') = Inr c'
          \<and> parameters c' = PDict [(PStr ''epochs'', PInt 3)])"
proof -
  have o: "owned_tmp open_frame = None" "context_ref open_frame = 0"
    by (simp_all add: open_frame_def)
  have n: "json_native (parameters (ctx_heap edited_process (context_ref open_frame)))"
    by (simp add: o edited_process_ctx)
  from reload_saved_params [OF closed_process_env]
  have "\<forall>f w2. AcumosContextManager_exit f None w2 = (None, closed_process) \<and> owned_tmp f = None
                 \<and> params_path (ctx_heap w2 (context_ref f)) = Join (Path ''/work'') ''context.json'' \<longrightarrow>
            (\<exists>c' j. to_json (parameters (ctx_heap w2 (context_ref f))) = Some j
                \<and> AcumosContext_init closed_process (Path ''/work'') = Inr c' \<and> parameters c' = of_json j
                \<and> (json_native (parameters (ctx_heap w2 (context_ref f)))
                     \<longrightarrow> parameters c' = parameters (ctx_heap w2 (context_ref f))))"
    by blast
  from this [rule_format, of open_frame edited_process] closed_process_exit edited_process_ctx o n
  obtain c' where "AcumosContext_init closed_process (Path ''/work'') = Inr c'"
      "parameters c' = parameters (ctx_heap edited_process (context_ref open_frame))"
    by auto
  then have "\<exists>c'. AcumosContext_init closed_process (Path ''/work'') = Inr c'
          \<and> parameters c' = PDict [(PStr ''epochs'', PInt 3)]"
    by (simp add: o edited_process_ctx)
  with closed_process_env closed_process_exit n show ?thesis by blast
qed

text \<open>
  The saved dictionary does not always come back as it was. Parameters with a tuple as a
  value and an integer as a key are reloaded with a list and a string in their place.
  And a session that was given no root directory saves its parameters into a directory
  that it removes on leaving, so that no context can be constructed over that root.
\<close>

lemma temp_process_enter:
  "AcumosContextManager_enter imported_process None ''default'' = (Inr temp_frame, temp_process)"
  by (rule prod_eqI)
     (simp_all add: temp_process_def temp_frame_def session_defs example_defs restrict_map_def
        Let_def)

theorem reload_not_verbatim_counterexample:
  "parameters (ctx_heap tuple_process 0) = tuple_params
   \<and> fst (AcumosContextManager_exit open_frame None tuple_process) = None
   \<and> map_sum id parameters
        (AcumosContext_init (snd (AcumosContextManager_exit open_frame None tuple_process)) (Path ''/work''))
       = Inr (PDict [(PStr ''shape'', PList [PInt 2, PInt 3]), (PStr ''1'', PStr ''x'')])
   \<and> PDict [(PStr ''shape'', PList [PInt 2, PInt 3]), (PStr ''1'', PStr ''x'')] \<noteq> tuple_params
   \<and> AcumosContextManager_enter imported_process None ''default'' = (Inr temp_frame, temp_process)
   \<and> fst (AcumosContextManager_exit temp_frame None temp_process) = None
   \<and> AcumosContext_init (snd (AcumosContextManager_exit temp_frame None temp_process)) (TempDir 0)
       = Inl (Exception (RootDirMissing (TempDir 0)))"
proof -
  have t: "to_json tuple_params = Some (JDict [(''shape'', JList [JInt 2, JInt 3]), (''1'', JStr ''x'')])"
    by (simp add: tuple_params_def int_str_def digits.simps)
  have a: "parameters (ctx_heap tuple_process 0) = tuple_params"
    by (simp add: tuple_process_def)
  have b: "fst (AcumosContextManager_exit open_frame None tuple_process) = None"
    by (simp add: tuple_process_def open_process_def session_defs example_defs t)
  have c: "map_sum id parameters
        (AcumosContext_init (snd (AcumosContextManager_exit open_frame None tuple_process)) (Path ''/work''))
       = Inr (PDict [(PStr ''shape'', PList [PInt 2, PInt 3]), (PStr ''1'', PStr ''x'')])"
    by (simp add: tuple_process_def open_process_def session_defs example_defs t written_def
          odict_of_def Let_def)
  have d: "PDict [(PStr ''shape'', PList [PInt 2, PInt 3]), (PStr ''1'', PStr ''x'')] \<noteq> tuple_params"
    by (simp add: tuple_params_def)
  have e: "fst (AcumosContextManager_exit temp_frame None temp_process) = None"
    by (simp add: temp_process_def temp_frame_def session_defs example_defs restrict_map_def
          written_def Let_def)
  have f: "AcumosContext_init (snd (AcumosContextManager_exit temp_frame None temp_process)) (TempDir 0)
       = Inl (Exception (RootDirMissing (TempDir 0)))"
    by (rule temp_root_gone) (simp add: temp_frame_def)
  show ?thesis using a b c d e f temp_process_enter by simp
qed

section \<open>Properties of the module views\<close>

lemma base_name_no_dot: "CHR ''.'' \<notin> set (base_name n)"
  by (auto simp: base_name_def dest: set_takeWhileD)

lemma views_disjoint: "packages c \<inter> scripts c = {}"
  by (auto simp: packages_def scripts_def)

lemma names_disjoint:
  assumes "inj_on mod_name (modules c)"
  shows "package_names c \<inter> script_names c = {}"
proof -
  have "False" if "m \<in> packages c" "m' \<in> scripts c" "mod_name m = mod_name m'" for m m'
  proof -
    from that have "m \<in> modules c" "m' \<in> modules c"
      by (auto simp: packages_def scripts_def)
    with assms that(3) have "m = m'" by (auto dest: inj_onD)
    with that views_disjoint [of c] show False by auto
  qed
  then show ?thesis
    by (auto simp: package_names_def script_names_def)
qed

lemma catch_object_modules:
  assumes new: "m \<in> modules (ctx_heap (snd (catch_object w obj)) r)" "m \<notin> modules (ctx_heap w r)"
  shows "\<exists>n. getmodule_name obj = Some n \<and> sys_modules w (base_name n) = Some m"
proof -
  define w1 where "w1 = extend_dispatch w obj"
  have w1: "ctx_heap w1 = ctx_heap w" "sys_modules w1 = sys_modules w"
    by (simp_all add: w1_def extend_dispatch_def)
  have co: "catch_object w obj =
     (case get_base_module w1 obj of
           Inl e \<Rightarrow> (Some e, w1)
         | Inr None \<Rightarrow> (None, w1)
         | Inr (Some base_module) \<Rightarrow>
             (if mod_name base_module \<in> BLACKLIST then (None, w1)
              else
                (case get_context w1 DEFAULT of
                   Inl e \<Rightarrow> (Some e, w1)
                 | Inr r \<Rightarrow>
                     (case add_module (importable w1) (ctx_heap w1 r) (ModuleObj base_module) of
                        Inl e \<Rightarrow> (Some e, w1)
                      | Inr c \<Rightarrow> (None, w1\<lparr>ctx_heap := (ctx_heap w1)(r := c)\<rparr>)))))"
    unfolding catch_object_def w1_def Let_def ..
  show ?thesis
  proof (cases "get_base_module w1 obj")
    case (Inl e)
    with new co w1 show ?thesis by simp
  next
    case (Inr bm)
    show ?thesis
    proof (cases bm)
      case None
      with new co w1 Inr show ?thesis by simp
    next
      case (Some base_module)
      then have g: "get_base_module w1 obj = Inr (Some base_module)" using Inr by simp
      then have src: "\<exists>n. getmodule_name obj = Some n \<and> sys_modules w (base_name n) = Some base_module"
        by (auto simp: get_base_module_def w1 split: option.splits)
      have "m = base_module"
        using new co w1 g
        by (auto simp: add_module_def split: if_splits sum.splits)
      with src show ?thesis by simp
    qed
  qed
qed

text \<open>
  Claim C7, as amended. In every context the package view and the script view are
  disjoint and are determined by the attributes of the recorded modules: a module is in
  the package view exactly when its \<^verbatim>\<open>__package__\<close> is a non-empty string, and in the
  script view exactly when it is not and the module is not named \<^verbatim>\<open>__main__\<close>. The
  two sets of names are disjoint when no two recorded modules share a name. A module that
  the pre-save hook adds to a context is the one \<^verbatim>\<open>sys.modules\<close> holds under the
  first component of the name of the module that defines the object; that component has
  no dot, and neither has the name of the module when \<^verbatim>\<open>sys.modules\<close> keeps every
  module under its own name.
\<close>

theorem module_views:
  "packages c \<inter> scripts c = {}
   \<and> (m \<in> packages c \<longleftrightarrow> m \<in> modules c \<and> truthy (mod_package m))
   \<and> (m \<in> scripts c \<longleftrightarrow> m \<in> modules c \<and> \<not> truthy (mod_package m) \<and> mod_name m \<noteq> ''__main__'')
   \<and> (inj_on mod_name (modules c) \<longrightarrow> package_names c \<inter> script_names c = {})
   \<and> (m' \<in> modules (ctx_heap (snd (catch_object w obj)) r) \<and> m' \<notin> modules (ctx_heap w r) \<longrightarrow>
        (\<exists>n. getmodule_name obj = Some n \<and> sys_modules w (base_name n) = Some m'
              \<and> CHR ''.'' \<notin> set (base_name n)
              \<and> ((\<forall>k x. sys_modules w k = Some x \<longrightarrow> mod_name x = k) \<longrightarrow> CHR ''.'' \<notin> set (mod_name m'))))"
proof -
  have a: "m \<in> packages c \<longleftrightarrow> m \<in> modules c \<and> truthy (mod_package m)"
    by (simp add: packages_def)
  have b: "m \<in> scripts c \<longleftrightarrow> m \<in> modules c \<and> \<not> truthy (mod_package m) \<and> mod_name m \<noteq> ''__main__''"
    by (simp add: scripts_def)
  have d: "\<exists>n. getmodule_name obj = Some n \<and> sys_modules w (base_name n) = Some m'
              \<and> CHR ''.'' \<notin> set (base_name n)
              \<and> ((\<forall>k x. sys_modules w k = Some x \<longrightarrow> mod_name x = k) \<longrightarrow> CHR ''.'' \<notin> set (mod_name m'))"
    if "m' \<in> modules (ctx_heap (snd (catch_object w obj)) r)" "m' \<notin> modules (ctx_heap w r)"
  proof -
    from catch_object_modules [OF that]
    obtain n where n: "getmodule_name obj = Some n" "sys_modules w (base_name n) = Some m'" by blast
    have "CHR ''.'' \<notin> set (mod_name m')" if "\<forall>k x. sys_modules w k = Some x \<longrightarrow> mod_name x = k"
      using that n(2) base_name_no_dot [of n] by auto
    with n base_name_no_dot [of n] show ?thesis by blast
  qed
  show ?thesis using views_disjoint names_disjoint a b d by blast
qed

lemma open_process_context:
  "ctx_heap open_process 0 =
     \<lparr>modules = {dill_module, gcumos_module}, root_dir = Path ''/work'',
      params_path = Join (Path ''/work'') ''context.json'', parameters = PDict []\<rparr>"
  by (simp add: open_process_def session_defs example_defs)

lemma open_process_sys_modules: "sys_modules open_process = example_modules"
  by (simp add: open_process_def session_defs example_defs)

lemma example_modules_names:
  "\<forall>k x. example_modules k = Some x \<longrightarrow> mod_name x = k"
  by (simp add: example_defs)

lemma catch_object_of_Ab:
  "ctx_heap (snd (catch_object open_process object_of_Ab)) 0 =
     \<lparr>modules = {package_A, dill_module, gcumos_module}, root_dir = Path ''/work'',
      params_path = Join (Path ''/work'') ''context.json'', parameters = PDict []\<rparr>"
  by (simp add: catch_object_def extend_dispatch_def get_base_module_def base_name_def
        object_of_Ab_def open_process_sys_modules open_process_contexts open_process_context
        get_context_def DEFAULT_def BLACKLIST_def add_module_def Let_def
        example_modules_def package_A_def)

theorem module_views_witness:
  "package_A \<in> modules (ctx_heap (snd (catch_object open_process object_of_Ab)) 0)
   \<and> package_A \<notin> modules (ctx_heap open_process 0)
   \<and> inj_on mod_name (modules (ctx_heap (snd (catch_object open_process object_of_Ab)) 0))
   \<and> package_A \<in> packages (ctx_heap (snd (catch_object open_process object_of_Ab)) 0)
   \<and> package_names (ctx_heap (snd (catch_object open_process object_of_Ab)) 0)
        \<inter> script_names (ctx_heap (snd (catch_object open_process object_of_Ab)) 0) = {}
   \<and> CHR ''.'' \<notin> set (mod_name package_A)"
proof -
  let ?c = "ctx_heap (snd (catch_object open_process object_of_Ab)) 0"
  have new: "package_A \<in> modules ?c" "package_A \<notin> modules (ctx_heap open_process 0)"
    by (simp_all add: catch_object_of_Ab open_process_context example_defs)
  have inj: "inj_on mod_name (modules ?c)"
    by (simp add: catch_object_of_Ab example_defs)
  have names: "\<forall>k x. sys_modules open_process k = Some x \<longrightarrow> mod_name x = k"
    by (simp add: open_process_sys_modules example_modules_names)
  have pk: "truthy (mod_package package_A)"
    by (simp add: truthy_def package_A_def)
  from module_views [of ?c package_A package_A open_process object_of_Ab 0] new inj names pk
  show ?thesis by blast
qed

text \<open>
  Not every context records packages under a top-level name: \<^verbatim>\<open>add_module\<close> records
  the module it is given, so after \<^verbatim>\<open>add_module('A.b')\<close> the package names contain
  the dotted name.
\<close>

theorem dotted_package_name_counterexample:
  "add_module example_modules (ctx_heap open_process 0) (ModuleName ''A.b'') = Inr dotted_context
   \<and> ''A.b'' \<in> package_names dotted_context
   \<and> CHR ''.'' \<in> set ''A.b''"
proof -
  have "submodule_Ab \<in> packages dotted_context"
    by (simp add: dotted_context_def packages_def truthy_def submodule_Ab_def)
  then have "mod_name submodule_Ab \<in> package_names dotted_context"
    unfolding package_names_def by (rule imageI)
  then have "''A.b'' \<in> package_names dotted_context"
    by (simp add: submodule_Ab_def)
  moreover have "add_module example_modules (ctx_heap open_process 0) (ModuleName ''A.b'') = Inr dotted_context"
    by (simp add: add_module_def dotted_context_def example_modules_def)
  ultimately show ?thesis by simp
qed

text \<open>
  The example of the specification: pickling, in the open session, an object defined in
  the submodule \<^verbatim>\<open>A.b\<close> and an object defined in the script \<^verbatim>\<open>S\<close> records the
  package under the name \<^verbatim>\<open>A\<close> and the script under the name \<^verbatim>\<open>S\<close>.
\<close>

lemma open_process_save: "Pickler_save open_process = WrappedSave StockSave"
  by (simp add: open_process_def session_defs example_defs)

lemma discovery_context:
  "ctx_heap (snd (run_steps [Pickle object_of_Ab, Pickle object_of_S] open_process)) 0 =
     \<lparr>modules = {script_S, package_A, dill_module, gcumos_module}, root_dir = Path ''/work'',
      params_path = Join (Path ''/work'') ''context.json'', parameters = PDict []\<rparr>"
  by (simp add: run_steps_def open_process_save hook_defs object_of_Ab_def object_of_S_def
        open_process_sys_modules open_process_contexts open_process_context
        add_module_def Let_def example_modules_def package_A_def script_S_def)

lemma discovery_example:
  "package_names (ctx_heap (snd (run_steps [Pickle object_of_Ab, Pickle object_of_S] open_process)) 0)
     = {''A'', ''dill'', ''gcumos''}
   \<and> script_names (ctx_heap (snd (run_steps [Pickle object_of_Ab, Pickle object_of_S] open_process)) 0)
     = {''S''}"
proof -
  let ?c = "ctx_heap (snd (run_steps [Pickle object_of_Ab, Pickle object_of_S] open_process)) 0"
  have p: "packages ?c = {package_A, dill_module, gcumos_module}"
    unfolding discovery_context
    by (auto simp: packages_def truthy_def script_S_def package_A_def dill_module_def gcumos_module_def)
  have s: "scripts ?c = {script_S}"
    unfolding discovery_context
    by (auto simp: scripts_def truthy_def script_S_def package_A_def dill_module_def gcumos_module_def)
  show ?thesis
    by (simp add: package_names_def script_names_def p s
          script_S_def package_A_def dill_module_def gcumos_module_def)
qed

section \<open>Properties of the interceptor\<close>

subsection \<open>What a piece of code leaves of the dispatch tables\<close>

lemma table_frame_refl: "table_frame w w"
  by (simp add: table_frame_def)

lemma table_frame_trans:
  assumes "table_frame w w1" "table_frame w1 w2"
  shows "table_frame w w2"
  using assms unfolding table_frame_def
  by (metis (no_types, lifting) le_trans less_le_trans)

lemma table_frame_allocated:
  assumes "allocated w" "table_frame w w1"
  shows "allocated w1"
  using assms by (auto simp: allocated_def table_frame_def)

lemma frames_seq:
  assumes "\<forall>f \<in> set fs. frames f"
  shows "frames (seq fs)"
  unfolding frames_def
proof (intro allI impI)
  fix w assume "allocated w"
  with assms show "table_frame w (snd (seq fs w))"
  proof (induction fs arbitrary: w)
    case Nil
    then show ?case by (simp add: table_frame_refl)
  next
    case (Cons f fs)
    obtain r w1 where f: "f w = (r, w1)" by force
    have t: "table_frame w w1"
      using Cons.prems f by (auto simp: frames_def)
    show ?case
    proof (cases r)
      case None
      have "table_frame w1 (snd (seq fs w1))"
        using Cons.IH [of w1] Cons.prems t table_frame_allocated by auto
      with t show ?thesis
        using f None by (auto intro: table_frame_trans)
    next
      case (Some e)
      with t f show ?thesis by simp
    qed
  qed
qed

lemma extend_dispatch_fields:
  "Pickler_dispatch (extend_dispatch w obj) = Pickler_dispatch w"
  "Pickler_save (extend_dispatch w obj) = Pickler_save w"
  "next_dict (extend_dispatch w obj) = next_dict w"
  "a \<noteq> Pickler_dispatch w \<Longrightarrow> dicts (extend_dispatch w obj) a = dicts w a"
  by (simp_all add: extend_dispatch_def)

lemma catch_object_fields:
  "Pickler_dispatch (snd (catch_object w obj)) = Pickler_dispatch w"
  "Pickler_save (snd (catch_object w obj)) = Pickler_save w"
  "next_dict (snd (catch_object w obj)) = next_dict w"
  "dicts (snd (catch_object w obj)) = dicts (extend_dispatch w obj)"
  by (simp_all add: catch_object_def Let_def extend_dispatch_fields
        split: sum.splits option.splits)

lemma call_save_fields:
  "Pickler_dispatch (snd (call_save p w obj)) = Pickler_dispatch w
   \<and> Pickler_save (snd (call_save p w obj)) = Pickler_save w
   \<and> next_dict (snd (call_save p w obj)) = next_dict w
   \<and> (\<forall>a. a \<noteq> Pickler_dispatch w \<longrightarrow> dicts (snd (call_save p w obj)) a = dicts w a)"
proof (induction p arbitrary: w)
  case StockSave
  show ?case by simp
next
  case (WrappedSave p)
  obtain r w1 where c: "catch_object w obj = (r, w1)" by force
  have w1: "Pickler_dispatch w1 = Pickler_dispatch w" "Pickler_save w1 = Pickler_save w"
    "next_dict w1 = next_dict w" "\<forall>a. a \<noteq> Pickler_dispatch w \<longrightarrow> dicts w1 a = dicts w a"
    using catch_object_fields [of w obj] c by (simp_all add: extend_dispatch_fields)
  show ?case
  proof (cases r)
    case (Some e)
    with c w1 show ?thesis by simp
  next
    case None
    show ?thesis
    proof (cases "is_namedtuple obj \<and> oid obj \<noteq> Empty")
      case True
      with c None w1 show ?thesis by (simp split: sum.splits prod.splits)
    next
      case False
      then have "call_save (WrappedSave p) w obj = call_save p w1 obj"
        using c None by auto
      with WrappedSave.IH [of w1] w1 show ?thesis by simp
    qed
  qed
qed

lemma frames_Pickle: "frames (run_step (Pickle obj))"
  unfolding frames_def
proof (intro allI impI)
  fix w assume "allocated w"
  have s: "snd (run_step (Pickle obj) w) = snd (call_save (Pickler_save w) w obj)"
    by (simp split: prod.splits sum.splits)
  have stock: "Pickler_save w = StockSave \<Longrightarrow> snd (call_save (Pickler_save w) w obj) = w"
    by simp
  show "table_frame w (snd (run_step (Pickle obj) w))"
    unfolding s table_frame_def using call_save_fields [of "Pickler_save w" w obj] stock
    by auto
qed

lemma frames_Fail: "frames (run_step (Fail e))"
  by (simp add: frames_def table_frame_refl)

lemma frames_revert:
  assumes "frames body"
  shows "frames (with_revert_dispatch t body)"
  unfolding frames_def
proof (intro allI impI)
  fix w assume al: "allocated w"
  show "table_frame w (snd (with_revert_dispatch t body w))"
  proof (cases "dicts w (Pickler_dispatch w) t")
    case None
    then show ?thesis
      by (simp add: with_revert_dispatch_def revert_dispatch_enter_def table_frame_refl)
  next
    case (Some f)
    define w1 where "w1 = w\<lparr>dicts := (dicts w)(Pickler_dispatch w := (dicts w (Pickler_dispatch w))(t := None))\<rparr>"
    obtain r w2 where b: "body w1 = (r, w2)" by force
    have al1: "allocated w1" using al by (simp add: w1_def allocated_def)
    have t12: "table_frame w1 w2"
      using assms al1 b by (auto simp: frames_def)
    have res: "with_revert_dispatch t body w = (r, revert_dispatch_exit f t w2)"
      using Some b by (simp add: with_revert_dispatch_def revert_dispatch_enter_def w1_def)
    have put_back: "((dicts w (Pickler_dispatch w))(t := None))(t \<mapsto> f) = dicts w (Pickler_dispatch w)"
      using Some by (auto simp: fun_eq_iff)
    show ?thesis
      unfolding res using t12 put_back
      by (auto simp: table_frame_def revert_dispatch_exit_def w1_def)
  qed
qed

lemma DirManager_exit_pickler:
  "Pickler_dispatch (DirManager_exit owned w) = Pickler_dispatch w"
  "Pickler_save (DirManager_exit owned w) = Pickler_save w"
  "dicts (DirManager_exit owned w) = dicts w"
  "next_dict (DirManager_exit owned w) = next_dict w"
  by (simp_all add: DirManager_exit_def rmtree_def split: option.splits)

lemma unwind_pickler:
  "Pickler_dispatch (snd (unwind pf name owned exc w)) = saved_dispatch pf"
  "Pickler_save (snd (unwind pf name owned exc w)) = saved_save pf"
  "dicts (snd (unwind pf name owned exc w)) = dicts w"
  "next_dict (snd (unwind pf name owned exc w)) = next_dict w"
  by (simp_all add: unwind_def del_context_def patch_dill_exit_def Let_def split_def
        DirManager_exit_pickler)

lemma exit_pickler:
  "Pickler_dispatch (snd (AcumosContextManager_exit f outcome w)) = saved_dispatch (patch f)"
  "Pickler_save (snd (AcumosContextManager_exit f outcome w)) = saved_save (patch f)"
  "dicts (snd (AcumosContextManager_exit f outcome w)) = dicts w"
  "next_dict (snd (AcumosContextManager_exit f outcome w)) = next_dict w"
  by (cases outcome; simp add: AcumosContextManager_exit_def unwind_pickler save_params_fields
        split_def Let_def)+

lemma DirManager_enter_pickler:
  assumes "DirManager_enter w rd = Inr (root, owned, w2)"
  shows "Pickler_dispatch w2 = Pickler_dispatch w \<and> Pickler_save w2 = Pickler_save w
       \<and> dicts w2 = dicts w \<and> next_dict w2 = next_dict w"
  using assms by (cases rd) (auto simp: DirManager_enter_def Let_def split: if_splits)

lemma enter_pickler:
  assumes "AcumosContextManager_enter w rd name = (res, w1)"
  shows "next_dict w1 = Suc (next_dict w)
       \<and> dicts w1 = (dicts w)(next_dict w := dicts w (Pickler_dispatch w))
       \<and> (case res of
             Inl e \<Rightarrow> Pickler_dispatch w1 = Pickler_dispatch w \<and> Pickler_save w1 = Pickler_save w
           | Inr f \<Rightarrow> saved_dispatch (patch f) = Pickler_dispatch w \<and> saved_save (patch f) = Pickler_save w
                    \<and> Pickler_dispatch w1 = next_dict w
                    \<and> Pickler_save w1 = WrappedSave (Pickler_save w))"
proof -
  define pf where "pf = \<lparr>saved_dispatch = Pickler_dispatch w, saved_save = Pickler_save w\<rparr>"
  define wp where "wp = w\<lparr>dicts := (dicts w)(next_dict w := dicts w (Pickler_dispatch w)),
        next_dict := Suc (next_dict w),
        Pickler_dispatch := next_dict w,
        Pickler_save := WrappedSave (Pickler_save w)\<rparr>"
  have p: "patch_dill_enter w = (pf, wp)"
    by (simp add: patch_dill_enter_def pf_def wp_def)
  show ?thesis
  proof (cases "contexts wp name")
    case (Some a)
    with assms p show ?thesis
      by (auto simp: AcumosContextManager_enter_def patch_dill_exit_def pf_def wp_def)
  next
    case None
    note free = this
    show ?thesis
    proof (cases "DirManager_enter wp rd")
      case (Inl e)
      with assms p free show ?thesis
        by (auto simp: AcumosContextManager_enter_def split_def Let_def del_context_def
              patch_dill_exit_def pf_def wp_def)
    next
      case (Inr x)
      then obtain root owned w2 where d: "DirManager_enter wp rd = Inr (root, owned, w2)"
        by (cases x) auto
      note w2 = DirManager_enter_pickler [OF d]
      show ?thesis
      proof (cases "AcumosContext_init w2 root")
        case (Inl e)
        with assms p free d have "res = Inl (case fst (unwind pf name owned (Some e) w2) of Some k \<Rightarrow> k | None \<Rightarrow> e)"
          and "w1 = snd (unwind pf name owned (Some e) w2)"
          by (auto simp: AcumosContextManager_enter_def split_def Let_def)
        then show ?thesis
          using w2 by (simp add: unwind_pickler) (simp add: pf_def wp_def)
      next
        case (Inr c)
        with assms p free d w2 show ?thesis
          by (auto simp: AcumosContextManager_enter_def pf_def wp_def)
      qed
    qed
  qed
qed

lemma session_tables:
  assumes fb: "frames body" and al: "allocated w" and a: "a < next_dict w"
  shows "dicts (snd (with_AcumosContextManager rd name (\<lambda>c. body) w)) a = dicts w a"
proof -
  obtain res w1 where e: "AcumosContextManager_enter w rd name = (res, w1)" by force
  note ep = enter_pickler [OF e]
  show ?thesis
  proof (cases res)
    case (Inl err)
    with e ep a show ?thesis
      by (auto simp: with_AcumosContextManager_def)
  next
    case (Inr f)
    obtain r w2 where b: "body w1 = (r, w2)" by force
    have al1: "allocated w1" using ep Inr by (simp add: allocated_def)
    have t12: "table_frame w1 w2"
      using fb al1 b by (auto simp: frames_def)
    have res: "with_AcumosContextManager rd name (\<lambda>c. body) w = AcumosContextManager_exit f r w2"
      using e Inr b by (simp add: with_AcumosContextManager_def)
    have "a < next_dict w1" "a \<noteq> Pickler_dispatch w1" using a ep Inr by auto
    with t12 have "dicts w2 a = dicts w1 a" by (auto simp: table_frame_def)
    also have "\<dots> = dicts w a" using ep a by auto
    finally show ?thesis unfolding res by (simp add: exit_pickler)
  qed
qed

lemma session_pickler:
  "Pickler_dispatch (snd (with_AcumosContextManager rd name body w)) = Pickler_dispatch w
   \<and> Pickler_save (snd (with_AcumosContextManager rd name body w)) = Pickler_save w"
proof -
  obtain res w1 where e: "AcumosContextManager_enter w rd name = (res, w1)" by force
  note ep = enter_pickler [OF e]
  show ?thesis
  proof (cases res)
    case (Inl err)
    with e ep show ?thesis by (simp add: with_AcumosContextManager_def)
  next
    case (Inr f)
    obtain r w2 where b: "body (context_ref f) w1 = (r, w2)" by force
    have "with_AcumosContextManager rd name body w = AcumosContextManager_exit f r w2"
      using e Inr b by (simp add: with_AcumosContextManager_def)
    with ep Inr show ?thesis by (simp add: exit_pickler)
  qed
qed

lemma session_next_dict:
  assumes fb: "frames body" and al: "allocated w"
  shows "next_dict w \<le> next_dict (snd (with_AcumosContextManager rd name (\<lambda>c. body) w))"
proof -
  obtain res w1 where e: "AcumosContextManager_enter w rd name = (res, w1)" by force
  note ep = enter_pickler [OF e]
  show ?thesis
  proof (cases res)
    case (Inl err)
    with e ep show ?thesis by (simp add: with_AcumosContextManager_def)
  next
    case (Inr f)
    obtain r w2 where b: "body w1 = (r, w2)" by force
    have al1: "allocated w1" using ep Inr by (simp add: allocated_def)
    have "table_frame w1 w2" using fb al1 b by (auto simp: frames_def)
    then have "next_dict w \<le> next_dict w2" using ep by (auto simp: table_frame_def)
    moreover have "with_AcumosContextManager rd name (\<lambda>c. body) w = AcumosContextManager_exit f r w2"
      using e Inr b by (simp add: with_AcumosContextManager_def)
    ultimately show ?thesis by (simp add: exit_pickler)
  qed
qed

lemma frames_session:
  assumes "frames body"
  shows "frames (with_AcumosContextManager rd name (\<lambda>c. body))"
  unfolding frames_def table_frame_def
  using session_tables [OF assms] session_pickler session_next_dict [OF assms]
  by (simp add: allocated_def)

lemma patch_dill_tables:
  assumes fb: "frames body" and al: "allocated w" and a: "a < next_dict w"
  shows "dicts (snd (with_patch_dill body w)) a = dicts w a"
proof -
  define w1 where "w1 = snd (patch_dill_enter w)"
  obtain r w2 where b: "body w1 = (r, w2)" by force
  have al1: "allocated w1" by (simp add: w1_def patch_dill_enter_def allocated_def)
  have t12: "table_frame w1 w2" using fb al1 b by (auto simp: frames_def)
  have "a < next_dict w1" "a \<noteq> Pickler_dispatch w1"
    using a by (simp_all add: w1_def patch_dill_enter_def)
  with t12 have "dicts w2 a = dicts w1 a" by (auto simp: table_frame_def)
  also have "\<dots> = dicts w a" using a by (simp add: w1_def patch_dill_enter_def)
  finally show ?thesis
    using b by (simp add: with_patch_dill_def w1_def split_def Let_def patch_dill_exit_def)
qed

lemma patch_dill_pickler:
  "Pickler_dispatch (snd (with_patch_dill body w)) = Pickler_dispatch w
   \<and> Pickler_save (snd (with_patch_dill body w)) = Pickler_save w
   \<and> fst (with_patch_dill body w) = fst (body (snd (patch_dill_enter w)))"
  by (simp add: with_patch_dill_def split_def Let_def patch_dill_exit_def patch_dill_enter_def)

lemma frames_run_step: "frames (run_step s)"
proof (induction s)
  case (Pickle obj)
  show ?case by (rule frames_Pickle)
next
  case (Codec obj body)
  then have "frames (seq (map run_step body))"
    by (intro frames_seq) auto
  then show ?case
    by (auto intro: frames_revert)
next
  case (Fail e)
  show ?case by (rule frames_Fail)
next
  case (Session rd name body)
  then have "frames (seq (map run_step body))"
    by (intro frames_seq) auto
  then show ?case
    by (auto intro: frames_session)
qed

lemma frames_run_steps: "frames (run_steps ss)"
  unfolding run_steps_def by (intro frames_seq) (auto simp: frames_run_step)

lemma custom_process_allocated: "Pickler_dispatch custom_process < next_dict custom_process"
  by (simp add: custom_process_def example_defs)

lemma custom_process_inactive: "Pickler_save custom_process = StockSave"
  by (simp add: custom_process_def example_defs)

subsection \<open>Leaving a session restores the interceptor\<close>

text \<open>
  Claim C1. Whatever the body of a session does, and whether it completes or raises,
  after the session \<^verbatim>\<open>dill.Pickler.dispatch\<close> refers to the dictionary it referred
  to before and \<^verbatim>\<open>dill.Pickler.save\<close> is the primitive it was before; the same
  holds of \<^verbatim>\<open>_patch_dill\<close> alone. When the body consists of steps of this module
  (pickling objects, which runs the hook and its lazy registrations, the annotation
  codec, nested sessions, raising), that dictionary also has the entries it had before:
  what the session wrote went to copies.
\<close>

theorem session_restores_pickler:
  "Pickler_dispatch (snd (with_AcumosContextManager rd name body w)) = Pickler_dispatch w
   \<and> Pickler_save (snd (with_AcumosContextManager rd name body w)) = Pickler_save w
   \<and> Pickler_dispatch (snd (with_patch_dill body' w)) = Pickler_dispatch w
   \<and> Pickler_save (snd (with_patch_dill body' w)) = Pickler_save w
   \<and> (Pickler_dispatch w < next_dict w \<longrightarrow>
        dicts (snd (with_AcumosContextManager rd name (\<lambda>c. run_steps ss) w)) (Pickler_dispatch w)
          = dicts w (Pickler_dispatch w)
        \<and> dicts (snd (with_patch_dill (run_steps ss) w)) (Pickler_dispatch w)
          = dicts w (Pickler_dispatch w))"
  using session_pickler [of rd name body w] patch_dill_pickler [of body' w]
    session_tables [OF frames_run_steps, of w "Pickler_dispatch w" rd name ss]
    patch_dill_tables [OF frames_run_steps, of w "Pickler_dispatch w" ss]
  by (simp add: allocated_def)

lemma failing_session_facts:
  "fst failing_session = Some (UserError ''boom'')"
  "dicts (snd failing_session) 1 (Ref 10) = Some (CustomHandler ''save_model'')"
  "dicts custom_process 0 (Ref 10) = None"
  by (simp_all add: failing_session_def with_AcumosContextManager_def run_steps_def
        custom_process_def session_defs example_defs hook_defs object_of_Ab_def Let_def)

theorem session_restores_pickler_witness:
  "Pickler_dispatch custom_process < next_dict custom_process
   \<and> fst failing_session = Some (UserError ''boom'')
   \<and> dicts (snd failing_session) 1 (Ref 10) = Some (CustomHandler ''save_model'')
   \<and> Pickler_dispatch (snd failing_session) = Pickler_dispatch custom_process
   \<and> Pickler_save (snd failing_session) = Pickler_save custom_process
   \<and> dicts (snd failing_session) (Pickler_dispatch custom_process) (Ref 10) = None"
  using session_restores_pickler [of "Some (Path ''/work'')" "''default''"
          "\<lambda>c. run_steps [Pickle object_of_Ab, Fail (UserError ''boom'')]" custom_process
          "run_steps []" "[Pickle object_of_Ab, Fail (UserError ''boom'')]"]
        custom_process_allocated failing_session_facts
  by (simp add: failing_session_def) (simp add: custom_process_def example_defs)

subsection \<open>The dispatch table outside sessions\<close>

text \<open>
  Claim C9, as amended. While no session is active, that is while the save primitive is
  the serializer's own, pickling objects, running the annotation codec and running whole
  sessions leaves the process-wide table with the entries it had: the pre-save hook is
  not called by the serializer's own primitive, it writes to the current table only, and
  inside a session the current table is the session's copy.
\<close>

theorem table_outside_sessions:
  assumes "Pickler_dispatch w < next_dict w" and "Pickler_save w = StockSave"
  shows "dicts (snd (run_steps ss w)) (Pickler_dispatch w) = dicts w (Pickler_dispatch w)
       \<and> Pickler_dispatch (snd (run_steps ss w)) = Pickler_dispatch w
       \<and> Pickler_save (snd (run_steps ss w)) = StockSave
       \<and> call_save StockSave w' obj = (Inr (DefaultSave obj), w')
       \<and> (\<forall>a. a \<noteq> Pickler_dispatch w' \<longrightarrow> dicts (snd (catch_object w' obj)) a = dicts w' a)
       \<and> Pickler_dispatch (snd (patch_dill_enter w')) = next_dict w'
       \<and> Pickler_save (snd (patch_dill_enter w')) \<noteq> StockSave"
proof -
  have "table_frame w (snd (run_steps ss w))"
    using frames_run_steps [of ss] assms(1) by (simp add: frames_def allocated_def)
  then have "dicts (snd (run_steps ss w)) (Pickler_dispatch w) = dicts w (Pickler_dispatch w)
       \<and> Pickler_dispatch (snd (run_steps ss w)) = Pickler_dispatch w
       \<and> Pickler_save (snd (run_steps ss w)) = StockSave"
    using assms(2) by (simp add: table_frame_def)
  moreover have "\<forall>a. a \<noteq> Pickler_dispatch w' \<longrightarrow> dicts (snd (catch_object w' obj)) a = dicts w' a"
    by (simp add: catch_object_fields extend_dispatch_fields)
  ultimately show ?thesis
    by (simp add: patch_dill_enter_def)
qed

lemma outside_steps_facts:
  "fst (run_steps outside_steps custom_process) = None"
  "dicts (snd (run_steps outside_steps custom_process)) 1 (Ref 10) = Some (CustomHandler ''save_model'')"
  by (simp_all add: outside_steps_def with_AcumosContextManager_def run_steps_def
        custom_process_def session_defs example_defs hook_defs object_of_Ab_def object_of_S_def
        Let_def save_annotation_def with_revert_dispatch_def revert_dispatch_enter_def
        revert_dispatch_exit_def)

theorem table_outside_sessions_witness:
  "Pickler_dispatch custom_process < next_dict custom_process
   \<and> Pickler_save custom_process = StockSave
   \<and> fst (run_steps outside_steps custom_process) = None
   \<and> dicts (snd (run_steps outside_steps custom_process)) 1 (Ref 10) = Some (CustomHandler ''save_model'')
   \<and> dicts (snd (run_steps outside_steps custom_process)) (Pickler_dispatch custom_process)
        = dicts custom_process (Pickler_dispatch custom_process)
   \<and> Pickler_save (snd (run_steps outside_steps custom_process)) = StockSave"
  using table_outside_sessions [OF custom_process_allocated custom_process_inactive, of outside_steps]
        custom_process_allocated custom_process_inactive outside_steps_facts
  by simp

text \<open>
  The module does write to the process-wide table while no session is active: importing
  it registers the annotation codec, and the codec's \<^verbatim>\<open>_revert_dispatch\<close> removes
  that entry for the duration of a save.
\<close>

theorem import_mutates_table_counterexample:
  "Pickler_save fresh_process = StockSave
   \<and> contexts fresh_process = Map.empty
   \<and> dicts fresh_process (Pickler_dispatch fresh_process) GenericMeta = None
   \<and> dicts (module_import fresh_process) (Pickler_dispatch fresh_process) GenericMeta = Some SaveAnnotation
   \<and> Pickler_save imported_process = StockSave
   \<and> (case revert_dispatch_enter imported_process GenericMeta of
         Inl e \<Rightarrow> False
       | Inr (f, w1) \<Rightarrow> f = SaveAnnotation \<and> dicts w1 (Pickler_dispatch w1) GenericMeta = None)"
  by (simp add: example_defs revert_dispatch_enter_def)

section \<open>Properties of the codecs\<close>

subsection \<open>Annotations\<close>

text \<open>
  Claim C2. Decoding what \<^verbatim>\<open>_save_annotation\<close> hands to \<^verbatim>\<open>save_reduce\<close> gives
  the annotation back. For an annotation whose origin is \<^verbatim>\<open>Dict\<close> or \<^verbatim>\<open>List\<close> the
  encoding is the origin and the argument sequence; otherwise it is the annotation itself
  with no arguments, saved while the codec's own entry is shadowed. Decoding with no
  arguments returns the type unchanged. The serializer carries the pair from the one
  function to the other; the annotation has the number of arguments \<^verbatim>\<open>typing\<close> requires.
\<close>

theorem annotation_roundtrip:
  assumes "arity_ok obj"
  shows "(case save_annotation obj of (shadow, t, as) \<Rightarrow> load_annotation t as) = Inr obj
       \<and> (origin obj = Some Dict \<or> origin obj = Some List \<longrightarrow>
            save_annotation obj = (False, the (origin obj), args obj))
       \<and> (origin obj \<noteq> Some Dict \<and> origin obj \<noteq> Some List \<longrightarrow>
            save_annotation obj = (True, obj, None))
       \<and> load_annotation t None = Inr t"
proof -
  have rt: "(case save_annotation obj of (shadow, t, as) \<Rightarrow> load_annotation t as) = Inr obj"
  proof (cases obj)
    case (Subscript t0 as)
    show ?thesis
    proof (cases "t0 = Dict \<or> t0 = List")
      case True
      with Subscript assms show ?thesis
        by (auto simp: save_annotation_def load_annotation_def arity_ok_def length_Suc_conv
              numeral_2_eq_2 split: list.splits)
    next
      case False
      with Subscript show ?thesis
        by (simp add: save_annotation_def load_annotation_def)
    qed
  qed (simp_all add: save_annotation_def load_annotation_def)
  show ?thesis
    using rt by (simp add: save_annotation_def load_annotation_def)
qed

theorem annotation_roundtrip_witness:
  "arity_ok dict_annotation
   \<and> save_annotation dict_annotation
       = (False, Dict, Some [Class ''str'', Subscript List [Class ''int'']])
   \<and> load_annotation Dict (Some [Class ''str'', Subscript List [Class ''int'']]) = Inr dict_annotation
   \<and> save_annotation Dict = (True, Dict, None)
   \<and> load_annotation Dict None = Inr Dict"
proof -
  have a: "arity_ok dict_annotation" "arity_ok Dict"
    by (simp_all add: arity_ok_def dict_annotation_def)
  from annotation_roundtrip [OF a(1), of Dict] annotation_roundtrip [OF a(2), of Dict] a
  show ?thesis
    by (auto simp: dict_annotation_def)
qed

subsection \<open>Named tuples\<close>

lemma load_namedtuple_eq:
  "load_namedtuple w name ft = create_namedtuple w name ft"
  by (simp add: load_namedtuple_def items_def)

text \<open>A new type object takes an identity that no existing type object has.\<close>

lemma create_namedtuple_fresh:
  assumes "types_ok w"
  shows "types w (fst (create_namedtuple w name layout)) = None"
proof (rule ccontr)
  assume "types w (fst (create_namedtuple w name layout)) \<noteq> None"
  then have "types w (Ref (next_obj w)) \<noteq> None" by (simp add: create_namedtuple_def)
  with assms have "next_obj w < next_obj w" unfolding types_ok_def by blast
  then show False by simp
qed

lemma create_namedtuple_ok:
  assumes "types_ok w"
  shows "types_ok (snd (create_namedtuple w name layout))"
  using assms by (auto simp: types_ok_def create_namedtuple_def less_Suc_eq)

lemma create_namedtuple_types:
  "types (snd (create_namedtuple w name layout))
     = (types w)(fst (create_namedtuple w name layout) \<mapsto> \<lparr>nt_name = name, nt_fields = layout\<rparr>)"
  by (simp add: create_namedtuple_def)

text \<open>
  The hook looks its context up under the default name, whatever the name of the session
  that installed it: when no context is registered under that name, pickling an object
  whose top-level module is not blacklisted raises.
\<close>

lemma hook_needs_default_context:
  assumes "getmodule_name obj = Some n" "sys_modules w (base_name n) = Some m"
      and "mod_name m \<notin> BLACKLIST" "contexts w DEFAULT = None"
  shows "fst (catch_object w obj) = Some (Exception (ContextNotCreated DEFAULT))"
proof -
  have "sys_modules (extend_dispatch w obj) = sys_modules w"
       "contexts (extend_dispatch w obj) = contexts w"
    by (simp_all add: extend_dispatch_def)
  with assms show ?thesis
    by (simp add: catch_object_def Let_def get_base_module_def get_context_def)
qed

text \<open>
  Claim C3. When the hook has run without an exception on a named tuple type with
  distinct field names, the wrapped save primitive hands a type other than \<^verbatim>\<open>Empty\<close>
  to the named-record codec, which encodes the name of the type and the ordered mapping
  of its fields. Decoding in a state where the original type exists allocates a type
  object whose identity was not in use, so that it is another object than the original,
  which is still there; the new type has the same name and the same fields with the same
  types in the same order. \<^verbatim>\<open>Empty\<close> is passed to the primitive that the wrapper
  replaced.
\<close>

theorem namedtuple_roundtrip:
  assumes nt: "payload obj = NamedTuple nt"
      and names: "distinct (map fst (nt_fields nt))"
      and hook: "catch_object w obj = (None, w1)"
      and live: "types wl (oid obj) = Some nt"
      and ok: "types_ok wl"
  shows "(oid obj \<noteq> Empty \<longrightarrow>
            call_save (WrappedSave pickler_save) w obj
              = (Inr (SaveReduce (nt_name nt) (namedtuple_field_types nt)), w1)
            \<and> (case load_namedtuple wl (nt_name nt) (namedtuple_field_types nt) of
                 (r, wl') \<Rightarrow>
                   r \<noteq> oid obj \<and> types wl r = None
                   \<and> types wl' (oid obj) = Some nt
                   \<and> (\<exists>nt'. types wl' r = Some nt' \<and> nt_name nt' = nt_name nt
                         \<and> map fst (nt_fields nt') = map fst (nt_fields nt)
                         \<and> nt_fields nt' = nt_fields nt)
                   \<and> types_ok wl'))
       \<and> (oid obj = Empty \<longrightarrow>
            call_save (WrappedSave pickler_save) w obj = call_save pickler_save w1 obj
            \<and> call_save (WrappedSave StockSave) w obj = (Inr (DefaultSave obj), w1))"
proof -
  have ft: "namedtuple_field_types nt = nt_fields nt"
    using names by (simp add: namedtuple_field_types_def odict_of_distinct)
  have isnt: "is_namedtuple obj" using nt by (simp add: is_namedtuple_def)
  have sv: "save_namedtuple obj = Inr (nt_name nt, namedtuple_field_types nt)"
    using nt by (simp add: save_namedtuple_def)
  let ?r = "fst (create_namedtuple wl (nt_name nt) (nt_fields nt))"
  let ?wl' = "snd (create_namedtuple wl (nt_name nt) (nt_fields nt))"
  have unused: "types wl ?r = None" using ok by (rule create_namedtuple_fresh)
  with live have other: "?r \<noteq> oid obj" by auto
  have kept: "types ?wl' (oid obj) = Some nt"
    using live other by (simp add: create_namedtuple_types)
  have new: "types ?wl' ?r = Some \<lparr>nt_name = nt_name nt, nt_fields = nt_fields nt\<rparr>"
    by (simp add: create_namedtuple_types)
  have ok': "types_ok ?wl'" using ok by (rule create_namedtuple_ok)
  have l: "load_namedtuple wl (nt_name nt) (namedtuple_field_types nt) = (?r, ?wl')"
    by (simp add: load_namedtuple_eq ft)
  show ?thesis
    using hook isnt sv unused other kept new ok' by (auto simp: l)
qed

lemma hook_point: "fst (catch_object open_process point_type) = None"
  by (simp add: hook_defs point_type_def open_process_sys_modules open_process_contexts
        add_module_def Let_def example_modules_def package_A_def)

lemma hook_empty: "fst (catch_object open_process empty_type) = None"
  by (simp add: hook_defs empty_type_def open_process_sys_modules open_process_contexts
        add_module_def Let_def example_modules_def gcumos_module_def)

lemma open_process_types:
  "types open_process = [Empty \<mapsto> empty_layout, Ref 20 \<mapsto> point_layout]"
  "next_obj open_process = 21"
  by (simp_all add: open_process_def session_defs example_defs)

lemma open_process_types_ok: "types_ok open_process"
  by (simp add: types_ok_def open_process_types)

theorem namedtuple_roundtrip_witness:
  "payload point_type = NamedTuple point_layout
   \<and> distinct (map fst (nt_fields point_layout))
   \<and> fst (catch_object open_process point_type) = None
   \<and> types open_process (oid point_type) = Some point_layout
   \<and> types_ok open_process
   \<and> oid point_type \<noteq> Empty
   \<and> fst (call_save (WrappedSave StockSave) open_process point_type)
       = Inr (SaveReduce ''Point'' [(''x'', Class ''int''), (''tags'', Subscript List [Class ''str''])])
   \<and> fst (load_namedtuple open_process ''Point''
            [(''x'', Class ''int''), (''tags'', Subscript List [Class ''str''])]) = Ref 21
   \<and> types (snd (load_namedtuple open_process ''Point''
            [(''x'', Class ''int''), (''tags'', Subscript List [Class ''str''])])) (Ref 21)
       = Some point_layout
   \<and> types (snd (load_namedtuple open_process ''Point''
            [(''x'', Class ''int''), (''tags'', Subscript List [Class ''str''])])) (oid point_type)
       = Some point_layout
   \<and> payload empty_type = NamedTuple empty_layout \<and> oid empty_type = Empty
   \<and> fst (call_save (WrappedSave StockSave) open_process empty_type) = Inr (DefaultSave empty_type)"
proof -
  have p: "payload point_type = NamedTuple point_layout"
      "distinct (map fst (nt_fields point_layout))"
      "catch_object open_process point_type = (None, snd (catch_object open_process point_type))"
      "types open_process (oid point_type) = Some point_layout"
      "oid point_type \<noteq> Empty"
    using hook_point by (simp_all add: point_type_def point_layout_def prod_eq_iff open_process_types)
  have e: "payload empty_type = NamedTuple empty_layout"
      "distinct (map fst (nt_fields empty_layout))"
      "catch_object open_process empty_type = (None, snd (catch_object open_process empty_type))"
      "types open_process (oid empty_type) = Some empty_layout"
      "oid empty_type = Empty"
    using hook_empty by (simp_all add: empty_type_def empty_layout_def prod_eq_iff open_process_types)
  have ft: "namedtuple_field_types point_layout
              = [(''x'', Class ''int''), (''tags'', Subscript List [Class ''str''])]"
    by (simp add: namedtuple_field_types_def odict_of_def point_layout_def)
  have l: "fst (load_namedtuple open_process ''Point''
            [(''x'', Class ''int''), (''tags'', Subscript List [Class ''str''])]) = Ref 21"
    by (simp add: load_namedtuple_eq create_namedtuple_def open_process_types)
  have n: "nt_name point_layout = ''Point''" by (simp add: point_layout_def)
  have t: "types (snd (load_namedtuple open_process ''Point''
            [(''x'', Class ''int''), (''tags'', Subscript List [Class ''str''])])) (Ref 21)
       = Some point_layout"
     "types (snd (load_namedtuple open_process ''Point''
            [(''x'', Class ''int''), (''tags'', Subscript List [Class ''str''])])) (oid point_type)
       = Some point_layout"
    by (simp_all add: load_namedtuple_eq create_namedtuple_def open_process_types point_layout_def
          point_type_def)
  from namedtuple_roundtrip [OF p(1-4) open_process_types_ok, of StockSave] p(5)
  have s1: "call_save (WrappedSave StockSave) open_process point_type
              = (Inr (SaveReduce (nt_name point_layout) (namedtuple_field_types point_layout)),
                 snd (catch_object open_process point_type))"
    by blast
  from namedtuple_roundtrip [OF e(1-4) open_process_types_ok, of StockSave] e(5)
  have s2: "call_save (WrappedSave StockSave) open_process empty_type
              = (Inr (DefaultSave empty_type), snd (catch_object open_process empty_type))"
    by blast
  have f1: "fst (call_save (WrappedSave StockSave) open_process point_type)
              = Inr (SaveReduce ''Point'' [(''x'', Class ''int''), (''tags'', Subscript List [Class ''str''])])"
    unfolding s1 by (simp add: ft n)
  have f2: "fst (call_save (WrappedSave StockSave) open_process empty_type) = Inr (DefaultSave empty_type)"
    unfolding s2 by simp
  show ?thesis
    using p(1,2,4,5) e(1,5) hook_point open_process_types_ok l t f1 f2
    by blast
qed

end
